theory Spec2Isabelle
  imports Main "HOL-Library.AList"
begin

section \<open>Values\<close>

text \<open>
  JSON values as the endpoint sees them after body parsing. An object is an association
  list in the order of \<^verbatim>\<open>Object.keys\<close>; a property is read with \<open>map_of\<close>.
  Strings are lists of 8-bit characters, so a code unit above 255 is outside the model.
\<close>

datatype json =
    JNull
  | JBool bool
  | JNum int
  | JStr string
  | JArr "json list"
  | JObj "(string \<times> json) list"

text \<open>JavaScript truthiness of a JSON value (\<^verbatim>\<open>!x\<close> is its negation).\<close>

fun truthy :: "json \<Rightarrow> bool" where
  "truthy JNull = False"
| "truthy (JBool b) = b"
| "truthy (JNum n) = (n \<noteq> 0)"
| "truthy (JStr s) = (s \<noteq> [])"
| "truthy (JArr xs) = True"
| "truthy (JObj kvs) = True"

section \<open>Regular expressions\<close>

text \<open>
  The three regular expressions of \<^verbatim>\<open>extractForbiddenFields\<close> are run by a
  backtracking matcher that lists the ways a pattern can match at the head of the
  input in the order in which a backtracking engine tries them (greedy quantifiers
  take the longest alternative first). The first element of the list is the match
  the engine reports.
\<close>

datatype regex =
    Eps
  | Lit char
  | NoneOf char
  | Space
  | Seq regex regex
  | Star regex
  | Opt regex
  | Group regex

definition Plus :: "regex \<Rightarrow> regex" where
  "Plus r = Seq r (Star r)"

definition seqs :: "regex list \<Rightarrow> regex" where
  "seqs rs = foldr Seq rs Eps"

definition lits :: "string \<Rightarrow> regex" where
  "lits s = seqs (map Lit s)"

text \<open>
  \<^verbatim>\<open>\s\<close> on code units below 256: tab, line feed, vertical tab, form feed,
  carriage return, space and no-break space.
\<close>

definition is_space :: "char \<Rightarrow> bool" where
  "is_space c = (of_char c \<in> set [9, 10, 11, 12, 13, 32, 160 :: nat])"

text \<open>
  Canonicalisation under the \<^verbatim>\<open>i\<close> flag (without \<^verbatim>\<open>u\<close>): upper-casing, which
  never maps a code unit of 128 or more to one below 128. The literals of the patterns
  are ASCII, so only the ASCII letters need their upper case here.
\<close>

definition canonicalize :: "char \<Rightarrow> char" where
  "canonicalize c =
     (let n = (of_char c :: nat) in if 97 \<le> n \<and> n \<le> 122 then char_of (n - 32) else c)"

type_synonym mstate = "string \<times> string option"

fun star_iter :: "(mstate \<Rightarrow> mstate list) \<Rightarrow> nat \<Rightarrow> mstate \<Rightarrow> mstate list" where
  "star_iter f 0 st = [st]"
| "star_iter f (Suc n) st =
     concat (map (\<lambda>st'. if length (fst st') < length (fst st) then star_iter f n st' else [])
                 (f st)) @ [st]"

fun match_here :: "bool \<Rightarrow> regex \<Rightarrow> mstate \<Rightarrow> mstate list" where
  "match_here ic Eps st = [st]"
| "match_here ic (Lit c) st =
     (case fst st of
        [] \<Rightarrow> []
      | x # xs \<Rightarrow>
          if (if ic then canonicalize x = canonicalize c else x = c) then [(xs, snd st)] else [])"
| "match_here ic (NoneOf c) st =
     (case fst st of [] \<Rightarrow> [] | x # xs \<Rightarrow> if x = c then [] else [(xs, snd st)])"
| "match_here ic Space st =
     (case fst st of [] \<Rightarrow> [] | x # xs \<Rightarrow> if is_space x then [(xs, snd st)] else [])"
| "match_here ic (Seq a b) st = concat (map (match_here ic b) (match_here ic a st))"
| "match_here ic (Star a) st = star_iter (match_here ic a) (length (fst st)) st"
| "match_here ic (Opt a) st = match_here ic a st @ [st]"
| "match_here ic (Group a) st =
     map (\<lambda>st'. (fst st', Some (take (length (fst st) - length (fst st')) (fst st))))
         (match_here ic a st)"

text \<open>
  \<^verbatim>\<open>RegExp.prototype.exec\<close> from the start of the input: the leftmost start
  position with a match wins. The result is the matched text, the input after the
  match and capture group 1.
\<close>

fun regex_exec :: "bool \<Rightarrow> regex \<Rightarrow> string \<Rightarrow> (string \<times> string \<times> string option) option" where
  "regex_exec ic r [] =
     (case match_here ic r ([], None) of
        [] \<Rightarrow> None
      | st # _ \<Rightarrow> Some ([], fst st, snd st))"
| "regex_exec ic r (c # cs) =
     (case match_here ic r (c # cs, None) of
        [] \<Rightarrow> regex_exec ic r cs
      | st # _ \<Rightarrow> Some (take (length (c # cs) - length (fst st)) (c # cs), fst st, snd st))"

text \<open>
  \<^verbatim>\<open>String.prototype.matchAll\<close> with a global pattern: successive matches, each
  search starting where the previous match ended, one code unit further after an empty
  match. Only capture group 1 of each match is kept. A match never leaves more input
  than it was given, so the two \<open>else []\<close> branches on lengths are never taken.
\<close>

function regex_matchAll :: "bool \<Rightarrow> regex \<Rightarrow> string \<Rightarrow> string option list" where
  "regex_matchAll ic r s =
     (case regex_exec ic r s of
        None \<Rightarrow> []
      | Some (m, rest, cap) \<Rightarrow>
          cap #
          (if m = [] then
             (case rest of
                [] \<Rightarrow> []
              | _ # rest' \<Rightarrow> if length rest' < length s then regex_matchAll ic r rest' else [])
           else if length rest < length s then regex_matchAll ic r rest else []))"
  by pat_completeness auto
termination
  by (relation "measure (\<lambda>(ic, r, s). length s)") auto

section \<open>Forbidden-field extraction\<close>

text \<open>The quoted-token pattern \<^verbatim>\<open>/"([^"]+)"/g\<close>.\<close>

definition quoted_re :: regex where
  "quoted_re = seqs [Lit (CHR 0x22), Group (Plus (NoneOf (CHR 0x22))), Lit (CHR 0x22)]"

text \<open>
  \<^verbatim>\<open>/access fields?\s+((?:"[^"]+"\s*,\s*)*"[^"]+")\s+in collection/i\<close>
\<close>

definition multi_re :: regex where
  "multi_re =
     seqs [lits ''access field'', Opt (Lit CHR ''s''), Plus Space,
           Group (Seq (Star (seqs [Lit (CHR 0x22), Plus (NoneOf (CHR 0x22)), Lit (CHR 0x22),
                                   Star Space, Lit CHR '','', Star Space]))
                      (seqs [Lit (CHR 0x22), Plus (NoneOf (CHR 0x22)), Lit (CHR 0x22)])),
           Plus Space, lits ''in collection'']"

text \<open>\<^verbatim>\<open>/access field\s+"([^"]+)"/gi\<close>\<close>

definition single_re :: regex where
  "single_re =
     seqs [lits ''access field'', Plus Space,
           Lit (CHR 0x22), Group (Plus (NoneOf (CHR 0x22))), Lit (CHR 0x22)]"

text \<open>
  The loop body \<^verbatim>\<open>if (field && !out.includes(field)) out.push(field)\<close>, run
  over the matches in order.
\<close>

fun push_fields :: "string option list \<Rightarrow> string list \<Rightarrow> string list" where
  "push_fields [] out = out"
| "push_fields (m # ms) out =
     (case m of
        None \<Rightarrow> push_fields ms out
      | Some field \<Rightarrow>
          if field \<noteq> [] \<and> field \<notin> set out then push_fields ms (out @ [field])
          else push_fields ms out)"

fun extractForbiddenFields :: "json \<Rightarrow> string list" where
  "extractForbiddenFields (JStr reason) =
     (case regex_exec True multi_re reason of
        Some (m, rest, Some list) \<Rightarrow>
          if list \<noteq> [] then push_fields (regex_matchAll False quoted_re list) []
          else push_fields (regex_matchAll True single_re reason) []
      | _ \<Rightarrow> push_fields (regex_matchAll True single_re reason) [])"
| "extractForbiddenFields _ = []"

section \<open>Result differ\<close>

text \<open>
  A row returned by the delegate is a record. \<^verbatim>\<open>getFirstItem\<close> yields the first
  row or \<^verbatim>\<open>null\<close>; in \<^verbatim>\<open>buildHints\<close> the value \<open>None\<close> stands for an item
  that fails the guard \<^verbatim>\<open>!item || typeof item !== 'object'\<close>.
\<close>

type_synonym row = "(string \<times> json) list"

datatype hint_kind = Missing | Null

record hint =
  hint_field :: string
  hint_type :: hint_kind
  hint_note :: string

definition getFirstItem :: "row list \<Rightarrow> row option" where
  "getFirstItem items = (case items of [] \<Rightarrow> None | x # _ \<Rightarrow> Some x)"

text \<open>
  \<^verbatim>\<open>key in obj\<close> also finds the properties a plain object inherits from
  \<^verbatim>\<open>Object.prototype\<close>.
\<close>

definition object_prototype_keys :: "string list" where
  "object_prototype_keys =
     [''constructor'', ''__defineGetter__'', ''__defineSetter__'', ''hasOwnProperty'',
      ''__lookupGetter__'', ''__lookupSetter__'', ''isPrototypeOf'', ''propertyIsEnumerable'',
      ''toString'', ''valueOf'', ''__proto__'', ''toLocaleString'']"

definition js_in :: "string \<Rightarrow> row \<Rightarrow> bool" where
  "js_in key obj = (key \<in> set (map fst obj) \<or> key \<in> set object_prototype_keys)"

definition note_no_row :: string where
  "note_no_row =
     ''Field not returned for simulated context (may be restricted by permissions or query).''"

definition note_missing :: string where
  "note_missing =
     ''Missing in simulated response (often indicates field/relational access restriction).''"

definition note_null :: string where
  "note_null =
     ''Returned as null in simulated response while requester sees a value (often indicates field-level restriction).''"

fun hints_loop :: "row \<Rightarrow> row \<Rightarrow> string list \<Rightarrow> hint list \<Rightarrow> hint list" where
  "hints_loop requester simulated [] hints = hints"
| "hints_loop requester simulated (key # keys) hints =
     (if \<not> js_in key simulated then
        hints_loop requester simulated keys
          (hints @ [\<lparr>hint_field = key, hint_type = Missing, hint_note = note_missing\<rparr>])
      else if map_of simulated key = Some JNull \<and> map_of requester key \<noteq> Some JNull then
        hints_loop requester simulated keys
          (hints @ [\<lparr>hint_field = key, hint_type = Null, hint_note = note_null\<rparr>])
      else hints_loop requester simulated keys hints)"

fun buildHints :: "row option \<Rightarrow> row option \<Rightarrow> hint list" where
  "buildHints None simulatedItem = []"
| "buildHints (Some requester) None =
     map (\<lambda>key. \<lparr>hint_field = key, hint_type = Missing, hint_note = note_no_row\<rparr>)
         (map fst requester)"
| "buildHints (Some requester) (Some simulated) =
     hints_loop requester simulated (map fst requester) []"

section \<open>Accountability builder\<close>

text \<open>
  The properties of an accountability object that the endpoint reads or writes;
  \<open>acc_roles = None\<close> is a \<^verbatim>\<open>roles\<close> property that is not an array, and
  \<open>acc_rest\<close> holds every other property, which the spread copies.
\<close>

record accountability =
  acc_user :: "string option"
  acc_role :: "string option"
  acc_roles :: "string list option"
  acc_admin :: bool
  acc_app :: bool
  acc_rest :: "(string \<times> json) list"

text \<open>
  An override is \<open>None\<close> when its key is absent from the overrides object; a present
  key carries \<open>None\<close> for \<^verbatim>\<open>null\<close> or \<^verbatim>\<open>undefined\<close>.
\<close>

record overrides =
  ov_user :: "string option option"
  ov_role :: "string option option"
  ov_admin :: "bool option option"
  ov_app :: "bool option option"

definition str_truthy :: "string option \<Rightarrow> bool" where
  "str_truthy v = (case v of None \<Rightarrow> False | Some s \<Rightarrow> s \<noteq> [])"

definition buildSimulatedAccountability :: "accountability \<Rightarrow> overrides \<Rightarrow> accountability" where
  "buildSimulatedAccountability base ov =
     (let next1 = (case ov_user ov of None \<Rightarrow> base | Some u \<Rightarrow> base\<lparr>acc_user := u\<rparr>);
          next2 = (case ov_role ov of None \<Rightarrow> next1 | Some r \<Rightarrow> next1\<lparr>acc_role := r\<rparr>);
          next3 = (case ov_admin ov of
                     None \<Rightarrow> next2
                   | Some a \<Rightarrow> next2\<lparr>acc_admin := (case a of None \<Rightarrow> False | Some b \<Rightarrow> b)\<rparr>);
          next4 = (case ov_app ov of
                     None \<Rightarrow> next3
                   | Some a \<Rightarrow> next3\<lparr>acc_app := (case a of None \<Rightarrow> True | Some b \<Rightarrow> b)\<rparr>)
      in if str_truthy (acc_role next4) then next4\<lparr>acc_roles := Some [the (acc_role next4)]\<rparr>
         else if acc_roles next4 = None then next4\<lparr>acc_roles := Some []\<rparr>
         else next4)"

section \<open>Query mutator\<close>

record strip_result =
  nextQuery :: json
  removedFields :: "string list"
  removedWildcard :: bool

definition unchanged :: "json \<Rightarrow> strip_result" where
  "unchanged query = \<lparr>nextQuery = query, removedFields = [], removedWildcard = False\<rparr>"

text \<open>
  The loop over the forbidden fields: each one is filtered out of the current list and
  recorded when the list got shorter.
\<close>

fun strip_loop :: "string list \<Rightarrow> json list \<Rightarrow> string list \<Rightarrow> json list \<times> string list" where
  "strip_loop [] nextFields removed = (nextFields, removed)"
| "strip_loop (forbidden # rest) nextFields removed =
     (let filtered = filter (\<lambda>f. f \<noteq> JStr forbidden) nextFields
      in strip_loop rest filtered
           (if length filtered \<noteq> length nextFields then removed @ [forbidden] else removed))"

definition stripFieldsFromQuery :: "json \<Rightarrow> string list \<Rightarrow> strip_result" where
  "stripFieldsFromQuery query forbiddenFields =
     (case query of
        JObj q \<Rightarrow>
          (case map_of q ''fields'' of
             Some (JArr originalFields) \<Rightarrow>
               if forbiddenFields = [] then unchanged query
               else
                 let hasWildcard = (JStr ''*'' \<in> set originalFields);
                     withoutWildcard = filter (\<lambda>f. f \<noteq> JStr ''*'') originalFields
                 in if hasWildcard \<and> withoutWildcard = [] then unchanged query
                    else
                      let looped = strip_loop forbiddenFields
                                     (if hasWildcard then withoutWildcard else originalFields) []
                      in if hasWildcard \<or> snd looped \<noteq> [] then
                           \<lparr>nextQuery = JObj (AList.update ''fields'' (JArr (fst looped)) q),
                            removedFields = snd looped,
                            removedWildcard = hasWildcard\<rparr>
                         else unchanged query
           | _ \<Rightarrow> unchanged query)
      | _ \<Rightarrow> unchanged query)"

section \<open>Simulation endpoint\<close>

datatype SimulationMode = Requester | User | Role | Public

text \<open>
  The request body: each property is absent (\<open>None\<close>) or a JSON value. Only the
  accountability and the body of a request reach the result; its id and headers are
  logged only.
\<close>

record body =
  b_mode :: "json option"
  b_collection :: "json option"
  b_query :: "json option"
  b_includeRequester :: "json option"
  b_userId :: "json option"
  b_roleId :: "json option"

record request =
  req_accountability :: "accountability option"
  req_body :: body

text \<open>
  A value thrown by a collaborator: its message and \<^verbatim>\<open>extensions.reason\<close>
  (\<open>None\<close> when there are no extensions or no reason).
\<close>

record thrown =
  t_message :: string
  t_reason :: "json option"

datatype error = ForbiddenError | BadRequestError | Thrown thrown

text \<open>
  The status given to \<^verbatim>\<open>createError\<close>; a propagated collaborator error brings
  its own.
\<close>

fun error_status :: "error \<Rightarrow> nat option" where
  "error_status ForbiddenError = Some 403"
| "error_status BadRequestError = Some 400"
| "error_status (Thrown e) = None"

record user_row =
  ur_role :: "string option"
  ur_status :: "string option"

datatype service = SimulatedService | RequesterService

text \<open>
  The calls the handler makes to its collaborators, in order, each with what it
  returned or threw: the lookup in \<^verbatim>\<open>directus_users\<close>, \<^verbatim>\<open>getSchema\<close>, and
  \<^verbatim>\<open>readByQuery\<close> on one of the two services.
\<close>

datatype event =
    UserLookup string "thrown + user_row option"
  | GetSchema
  | Read service accountability string json "thrown + row list"

text \<open>
  The collaborators, over a state \<open>'s\<close> of the outside world that each call may read
  and change. \<open>json_parse\<close> is \<^verbatim>\<open>JSON.parse\<close>, \<open>None\<close> for a syntax error.
\<close>

record 's endpoint_context =
  json_parse :: "string \<Rightarrow> json option"
  database_first :: "'s \<Rightarrow> string \<Rightarrow> (thrown + user_row option) \<times> 's"
  getSchema :: "'s \<Rightarrow> thrown option \<times> 's"
  readByQuery :: "'s \<Rightarrow> accountability \<Rightarrow> string \<Rightarrow> json \<Rightarrow> (thrown + row list) \<times> 's"

record response =
  res_mode :: SimulationMode
  res_collection :: string
  res_query :: json
  res_warnings :: "string list"
  res_simulated :: "row list"
  res_requester :: "row list option"
  res_hints :: "hint list"

datatype outcome = Json response | Next error

definition trim :: "string \<Rightarrow> string" where
  "trim s = rev (dropWhile is_space (rev (dropWhile is_space s)))"

text \<open>\<open>Inl ()\<close> is the exception of \<^verbatim>\<open>JSON.parse\<close>; \<open>Inr None\<close> is \<^verbatim>\<open>undefined\<close>.\<close>

definition parseJsonIfNeeded :: "(string \<Rightarrow> json option) \<Rightarrow> json option \<Rightarrow> unit + json option" where
  "parseJsonIfNeeded parse v =
     (case v of
        Some (JStr s) \<Rightarrow>
          (let trimmed = trim s
           in if trimmed = [] then Inr None
              else (case parse trimmed of None \<Rightarrow> Inl () | Some j \<Rightarrow> Inr (Some j)))
      | _ \<Rightarrow> Inr v)"

text \<open>\<^verbatim>\<open>v ?? d\<close>\<close>

definition nullish_or :: "json option \<Rightarrow> json \<Rightarrow> json" where
  "nullish_or v d = (case v of None \<Rightarrow> d | Some JNull \<Rightarrow> d | Some x \<Rightarrow> x)"

text \<open>\<^verbatim>\<open>['requester', 'user', 'role', 'public'].includes(mode)\<close>\<close>

definition mode_of :: "json \<Rightarrow> SimulationMode option" where
  "mode_of m =
     (if m = JStr ''requester'' then Some Requester
      else if m = JStr ''user'' then Some User
      else if m = JStr ''role'' then Some Role
      else if m = JStr ''public'' then Some Public
      else None)"

record validated =
  v_requester :: accountability
  v_mode :: SimulationMode
  v_collection :: string
  v_includeRequester :: bool
  v_query :: json

text \<open>The checks up to the parsed query; none of them calls a collaborator.\<close>

definition validate :: "(string \<Rightarrow> json option) \<Rightarrow> request \<Rightarrow> error + validated" where
  "validate parse req =
     (case req_accountability req of
        None \<Rightarrow> Inl ForbiddenError
      | Some requesterAccountability \<Rightarrow>
          if \<not> acc_admin requesterAccountability then Inl ForbiddenError
          else
            let mode = nullish_or (b_mode (req_body req)) (JStr ''requester'');
                includeRequester = nullish_or (b_includeRequester (req_body req)) (JBool True)
            in (case b_collection (req_body req) of
                  Some (JStr collection) \<Rightarrow>
                    if collection = [] then Inl BadRequestError
                    else
                      (case mode_of mode of
                         None \<Rightarrow> Inl BadRequestError
                       | Some m \<Rightarrow>
                           (case parseJsonIfNeeded parse (b_query (req_body req)) of
                              Inl u \<Rightarrow> Inl BadRequestError
                            | Inr parsed \<Rightarrow>
                                Inr \<lparr>v_requester = requesterAccountability,
                                     v_mode = m,
                                     v_collection = collection,
                                     v_includeRequester = truthy includeRequester,
                                     v_query = nullish_or parsed (JObj [])\<rparr>))
                | _ \<Rightarrow> Inl BadRequestError))"

definition role_warning :: string where
  "role_warning =
     ''Role-only simulation can't evaluate $CURRENT_USER-dependent permission rules. Prefer mode 'user' for accurate results.''"

definition no_role_warning :: string where
  "no_role_warning = ''User has no role assigned; simulation may deny most access.''"

definition status_warning :: "string \<Rightarrow> string" where
  "status_warning status =
     ''User status is '' @ [CHR 0x27] @ status @ [CHR 0x27] @
     ''. In real requests, non-active users cannot authenticate.''"

definition wildcard_warning :: string where
  "wildcard_warning =
     ''Simulated context cannot access one or more fields while query.fields contains '*'. Retrying simulation with '*' removed (keeping explicit fields only).''"

fun join :: "string \<Rightarrow> string list \<Rightarrow> string" where
  "join sep [] = []"
| "join sep [x] = x"
| "join sep (x # y # ys) = x @ sep @ join sep (y # ys)"

definition removed_warning :: "string list \<Rightarrow> string" where
  "removed_warning removed =
     ''Simulated context cannot access field(s) '' @
     join '', '' (map (\<lambda>f. [CHR 0x27] @ f @ [CHR 0x27]) removed) @
     ''. Retrying simulation with those fields removed from query.fields.''"

definition simulated_overrides :: "string option \<Rightarrow> string option \<Rightarrow> overrides" where
  "simulated_overrides u r =
     \<lparr>ov_user = Some u, ov_role = Some r, ov_admin = Some (Some False), ov_app = Some (Some True)\<rparr>"

text \<open>
  The role and status of a simulated user: the role id of the body when it is a
  non-empty string, the row of \<^verbatim>\<open>directus_users\<close> otherwise.
\<close>

definition resolve_user ::
  "'s endpoint_context \<Rightarrow> string \<Rightarrow> json option \<Rightarrow> 's \<Rightarrow>
     (error + string option \<times> string option) \<times> event list \<times> 's" where
  "resolve_user ctx userId roleId s =
     (let resolvedRoleId = (case roleId of Some (JStr r) \<Rightarrow> Some r | _ \<Rightarrow> None)
      in if str_truthy resolvedRoleId then (Inr (resolvedRoleId, None), [], s)
         else
           (case database_first ctx s userId of
              (Inl e, s') \<Rightarrow> (Inl (Thrown e), [UserLookup userId (Inl e)], s')
            | (Inr None, s') \<Rightarrow> (Inl BadRequestError, [UserLookup userId (Inr None)], s')
            | (Inr (Some userRow), s') \<Rightarrow>
                (Inr (ur_role userRow, ur_status userRow),
                 [UserLookup userId (Inr (Some userRow))], s')))"

text \<open>The simulated accountability of each mode, with the warnings of that mode.\<close>

definition build_accountability ::
  "'s endpoint_context \<Rightarrow> validated \<Rightarrow> body \<Rightarrow> 's \<Rightarrow>
     (error + accountability \<times> string list) \<times> event list \<times> 's" where
  "build_accountability ctx v b s =
     (case v_mode v of
        Requester \<Rightarrow> (Inr (v_requester v, []), [], s)
      | Public \<Rightarrow>
          (Inr (buildSimulatedAccountability (v_requester v) (simulated_overrides None None), []),
           [], s)
      | Role \<Rightarrow>
          (case b_roleId b of
             Some (JStr roleId) \<Rightarrow>
               if roleId = [] then (Inl BadRequestError, [], s)
               else
                 (Inr (buildSimulatedAccountability (v_requester v)
                         (simulated_overrides None (Some roleId)),
                       [role_warning]),
                  [], s)
           | _ \<Rightarrow> (Inl BadRequestError, [], s))
      | User \<Rightarrow>
          (case b_userId b of
             Some (JStr userId) \<Rightarrow>
               if userId = [] then (Inl BadRequestError, [], s)
               else
                 (case resolve_user ctx userId (b_roleId b) s of
                    (Inl e, evs, s') \<Rightarrow> (Inl e, evs, s')
                  | (Inr (resolvedRoleId, status), evs, s') \<Rightarrow>
                      (Inr (buildSimulatedAccountability (v_requester v)
                              (simulated_overrides (Some userId) resolvedRoleId),
                            (if \<not> str_truthy resolvedRoleId then [no_role_warning] else []) @
                            (if str_truthy status \<and> status \<noteq> Some ''active''
                             then [status_warning (the status)] else [])),
                       evs, s'))
           | _ \<Rightarrow> (Inl BadRequestError, [], s)))"

text \<open>\<^verbatim>\<open>e.extensions?.reason ?? e.message\<close>\<close>

definition reason_of :: "thrown \<Rightarrow> json" where
  "reason_of e = nullish_or (t_reason e) (JStr (t_message e))"

text \<open>
  The simulated query: the primary attempt and, after a failure that names forbidden
  fields which can be stripped from the query, one attempt with the narrowed query.
\<close>

definition simulated_read ::
  "'s endpoint_context \<Rightarrow> accountability \<Rightarrow> string \<Rightarrow> json \<Rightarrow> 's \<Rightarrow>
     (error + row list \<times> string list) \<times> event list \<times> 's" where
  "simulated_read ctx acc collection query s =
     (case readByQuery ctx s acc collection query of
        (Inr items, s1) \<Rightarrow>
          (Inr (items, []), [Read SimulatedService acc collection query (Inr items)], s1)
      | (Inl err, s1) \<Rightarrow>
          (let first = Read SimulatedService acc collection query (Inl err);
               forbiddenFields = extractForbiddenFields (reason_of err)
           in if forbiddenFields = [] then (Inl (Thrown err), [first], s1)
              else
                let stripped = stripFieldsFromQuery query forbiddenFields
                in if removedFields stripped = [] \<and> \<not> removedWildcard stripped
                   then (Inl (Thrown err), [first], s1)
                   else
                     let warnings =
                           (if removedWildcard stripped then [wildcard_warning] else []) @
                           (if removedFields stripped \<noteq> []
                            then [removed_warning (removedFields stripped)] else [])
                     in (case readByQuery ctx s1 acc collection (nextQuery stripped) of
                           (Inl err2, s2) \<Rightarrow>
                             (Inl (Thrown err2),
                              [first,
                               Read SimulatedService acc collection (nextQuery stripped) (Inl err2)],
                              s2)
                         | (Inr items, s2) \<Rightarrow>
                             (Inr (items, warnings),
                              [first,
                               Read SimulatedService acc collection (nextQuery stripped) (Inr items)],
                              s2))))"

text \<open>
  The requester's own query for the hints, only when \<^verbatim>\<open>includeRequester\<close> is
  truthy; it runs the query of the request under the requester's accountability.
\<close>

definition requester_read ::
  "'s endpoint_context \<Rightarrow> validated \<Rightarrow> 's \<Rightarrow> (error + row list) \<times> event list \<times> 's" where
  "requester_read ctx v s =
     (if v_includeRequester v then
        (case readByQuery ctx s (v_requester v) (v_collection v) (v_query v) of
           (Inl err, s1) \<Rightarrow>
             (Inl (Thrown err),
              [Read RequesterService (v_requester v) (v_collection v) (v_query v) (Inl err)], s1)
         | (Inr items, s1) \<Rightarrow>
             (Inr items,
              [Read RequesterService (v_requester v) (v_collection v) (v_query v) (Inr items)], s1))
      else (Inr [], [], s))"

text \<open>
  The handler of \<^verbatim>\<open>POST /simulate\<close>: what it answers (\<^verbatim>\<open>res.json\<close> or
  \<^verbatim>\<open>next(err)\<close>), the collaborator calls it made, and the state it leaves.
\<close>

definition simulate :: "'s endpoint_context \<Rightarrow> request \<Rightarrow> 's \<Rightarrow> outcome \<times> event list \<times> 's" where
  "simulate ctx req s =
     (case validate (json_parse ctx) req of
        Inl e \<Rightarrow> (Next e, [], s)
      | Inr v \<Rightarrow>
          (case build_accountability ctx v (req_body req) s of
             (Inl e, evs1, s1) \<Rightarrow> (Next e, evs1, s1)
           | (Inr (simulatedAccountability, warnings1), evs1, s1) \<Rightarrow>
               (case getSchema ctx s1 of
                  (Some e, s2) \<Rightarrow> (Next (Thrown e), evs1 @ [GetSchema], s2)
                | (None, s2) \<Rightarrow>
                    (case simulated_read ctx simulatedAccountability (v_collection v) (v_query v) s2 of
                       (Inl e, evs3, s3) \<Rightarrow> (Next e, evs1 @ [GetSchema] @ evs3, s3)
                     | (Inr (simulatedItems, warnings3), evs3, s3) \<Rightarrow>
                         (case requester_read ctx v s3 of
                            (Inl e, evs4, s4) \<Rightarrow> (Next e, evs1 @ [GetSchema] @ evs3 @ evs4, s4)
                          | (Inr requesterItems, evs4, s4) \<Rightarrow>
                              (Json \<lparr>res_mode = v_mode v,
                                     res_collection = v_collection v,
                                     res_query = v_query v,
                                     res_warnings = warnings1 @ warnings3,
                                     res_simulated = simulatedItems,
                                     res_requester =
                                       (if v_includeRequester v then Some requesterItems else None),
                                     res_hints =
                                       (if v_includeRequester v
                                        then buildHints (getFirstItem requesterItems)
                                               (getFirstItem simulatedItems)
                                        else [])\<rparr>,
                               evs1 @ [GetSchema] @ evs3 @ evs4, s4))))))"

text \<open>The attempts made through the simulated service.\<close>

fun is_simulated_read :: "event \<Rightarrow> bool" where
  "is_simulated_read (Read SimulatedService acc collection query result) = True"
| "is_simulated_read _ = False"

fun is_user_lookup :: "event \<Rightarrow> bool" where
  "is_user_lookup (UserLookup userId result) = True"
| "is_user_lookup _ = False"

section \<open>A worked scenario\<close>

text \<open>
  An administrator, a collection \<^verbatim>\<open>posts\<close> whose field \<^verbatim>\<open>secret_note\<close> only
  administrators may read, and an empty user directory. The state of the outside world
  counts the calls of \<^verbatim>\<open>readByQuery\<close>.
\<close>

definition admin_accountability :: accountability where
  "admin_accountability =
     \<lparr>acc_user = Some ''admin-1'', acc_role = Some ''admin-role'',
      acc_roles = Some [''admin-role''], acc_admin = True, acc_app = True,
      acc_rest = [(''ip'', JStr ''127.0.0.1'')]\<rparr>"

definition secret_denied :: thrown where
  \<open>secret_denied =
     \<lparr>t_message =
        ''You don't have permission to access field "secret_note" in collection "posts" or it does not exist.'',
      t_reason = None\<rparr>\<close>

definition posts_query :: json where
  "posts_query = JObj [(''fields'', JArr [JStr ''title'', JStr ''secret_note'']), (''limit'', JNum 1)]"

definition narrowed_posts_query :: json where
  "narrowed_posts_query = JObj [(''fields'', JArr [JStr ''title'']), (''limit'', JNum 1)]"

definition full_row :: row where
  "full_row = [(''title'', JStr ''Hello''), (''secret_note'', JStr ''classified'')]"

definition title_row :: row where
  "title_row = [(''title'', JStr ''Hello'')]"

text \<open>A delegate that lets other identities read only the narrowed query.\<close>

definition posts_context :: "nat endpoint_context" where
  "posts_context =
     \<lparr>json_parse = (\<lambda>text. None),
      database_first = (\<lambda>s userId. (Inr None, s)),
      getSchema = (\<lambda>s. (None, s)),
      readByQuery = (\<lambda>s acc collection query.
        if acc_admin acc then (Inr [full_row], Suc s)
        else if query = narrowed_posts_query then (Inr [title_row], Suc s)
        else (Inl secret_denied, Suc s))\<rparr>"

text \<open>A delegate that refuses every query of another identity.\<close>

definition denying_context :: "nat endpoint_context" where
  "denying_context =
     \<lparr>json_parse = (\<lambda>text. None),
      database_first = (\<lambda>s userId. (Inr None, s)),
      getSchema = (\<lambda>s. (None, s)),
      readByQuery = (\<lambda>s acc collection query.
        if acc_admin acc then (Inr [full_row], Suc s) else (Inl secret_denied, Suc s))\<rparr>"

definition posts_request :: "json option \<Rightarrow> json option \<Rightarrow> json option \<Rightarrow> request" where
  "posts_request mode userId roleId =
     \<lparr>req_accountability = Some admin_accountability,
      req_body = \<lparr>b_mode = mode, b_collection = Some (JStr ''posts''),
                  b_query = Some posts_query, b_includeRequester = None,
                  b_userId = userId, b_roleId = roleId\<rparr>\<rparr>"

definition public_accountability :: accountability where
  "public_accountability =
     \<lparr>acc_user = None, acc_role = None,
      acc_roles = Some [''admin-role''], acc_admin = False, acc_app = True,
      acc_rest = [(''ip'', JStr ''127.0.0.1'')]\<rparr>"

definition editor_accountability :: accountability where
  "editor_accountability =
     \<lparr>acc_user = Some ''ghost'', acc_role = Some ''editor'',
      acc_roles = Some [''editor''], acc_admin = False, acc_app = True,
      acc_rest = [(''ip'', JStr ''127.0.0.1'')]\<rparr>"

text \<open>What the narrowed retry of the scenario answers, whoever the simulated identity is.\<close>

definition narrowed_response :: "SimulationMode \<Rightarrow> response" where
  "narrowed_response mode =
     \<lparr>res_mode = mode, res_collection = ''posts'', res_query = posts_query,
      res_warnings = [removed_warning [''secret_note'']],
      res_simulated = [title_row], res_requester = Some [full_row],
      res_hints = [\<lparr>hint_field = ''secret_note'', hint_type = Missing,
                    hint_note = note_missing\<rparr>]\<rparr>"

definition narrowed_events :: "accountability \<Rightarrow> event list" where
  "narrowed_events acc =
     [GetSchema,
      Read SimulatedService acc ''posts'' posts_query (Inl secret_denied),
      Read SimulatedService acc ''posts'' narrowed_posts_query (Inr [title_row]),
      Read RequesterService admin_accountability ''posts'' posts_query (Inr [full_row])]"

definition validated_posts :: "SimulationMode \<Rightarrow> validated" where
  "validated_posts mode =
     \<lparr>v_requester = admin_accountability, v_mode = mode, v_collection = ''posts'',
      v_includeRequester = True, v_query = posts_query\<rparr>"

section \<open>Properties of the query mutator\<close>

lemma strip_loop_fst:
  "fst (strip_loop F nf rm) = filter (\<lambda>f. f \<notin> JStr ` set F) nf"
  by (induction F arbitrary: nf rm) (auto simp: Let_def intro: filter_cong)

lemma strip_loop_snd_subset:
  "set (snd (strip_loop F nf rm)) \<subseteq> set rm \<union> {x \<in> set F. JStr x \<in> set nf}"
proof (induction F arbitrary: nf rm)
  case Nil
  then show ?case by simp
next
  case (Cons x F)
  let ?nf = "filter (\<lambda>f. f \<noteq> JStr x) nf"
  let ?rm = "if length ?nf \<noteq> length nf then rm @ [x] else rm"
  have changed: "length ?nf \<noteq> length nf \<Longrightarrow> JStr x \<in> set nf"
    by (metis (mono_tags, lifting) filter_True)
  have "set (snd (strip_loop F ?nf ?rm)) \<subseteq> set ?rm \<union> {y \<in> set F. JStr y \<in> set ?nf}"
    by (rule Cons.IH)
  moreover have "set ?rm \<subseteq> set rm \<union> {y \<in> set (x # F). JStr y \<in> set nf}"
    using changed by auto
  moreover have "{y \<in> set F. JStr y \<in> set ?nf} \<subseteq> {y \<in> set (x # F). JStr y \<in> set nf}"
    by auto
  ultimately have "set (snd (strip_loop F ?nf ?rm)) \<subseteq> set rm \<union> {y \<in> set (x # F). JStr y \<in> set nf}"
    by blast
  then show ?case by (simp add: Let_def)
qed

lemma strip_loop_clean:
  "JStr ` set F \<inter> set nf = {} \<Longrightarrow> strip_loop F nf rm = (nf, rm)"
proof (induction F arbitrary: rm)
  case Nil
  then show ?case by simp
next
  case (Cons x F)
  then have "filter (\<lambda>f. f \<noteq> JStr x) nf = nf"
    by (auto intro!: filter_True)
  with Cons show ?case by (simp add: Let_def)
qed

text \<open>
  The mutator either gives the query back with empty removal lists, or replaces the
  field list by the original one without the wildcard and the forbidden names.
\<close>

lemma strip_unchanged_or_narrowed:
  "stripFieldsFromQuery q F = unchanged q \<or>
   (\<exists>kvs fs. q = JObj kvs \<and> map_of kvs ''fields'' = Some (JArr fs) \<and> F \<noteq> [] \<and>
      stripFieldsFromQuery q F =
        \<lparr>nextQuery = JObj (AList.update ''fields''
                        (JArr (filter (\<lambda>f. f \<noteq> JStr ''*'' \<and> f \<notin> JStr ` set F) fs)) kvs),
         removedFields = snd (strip_loop F (filter (\<lambda>f. f \<noteq> JStr ''*'') fs) []),
         removedWildcard = (JStr ''*'' \<in> set fs)\<rparr> \<and>
      (JStr ''*'' \<in> set fs \<or> snd (strip_loop F (filter (\<lambda>f. f \<noteq> JStr ''*'') fs) []) \<noteq> []))"
proof -
  have nw: "JStr ''*'' \<notin> set fs \<Longrightarrow> filter (\<lambda>f. f \<noteq> JStr ''*'') fs = fs" for fs
    by (auto intro!: filter_True)
  have nw2: "JStr ''*'' \<notin> set fs \<Longrightarrow>
      filter (\<lambda>f. f \<noteq> JStr ''*'' \<and> f \<notin> JStr ` set F) fs = filter (\<lambda>f. f \<notin> JStr ` set F) fs" for fs
    by (auto intro!: filter_cong)
  show ?thesis
    unfolding stripFieldsFromQuery_def
    by (auto simp: Let_def strip_loop_fst nw nw2 split: json.splits option.splits)
qed

lemma strip_idem:
  "stripFieldsFromQuery (nextQuery (stripFieldsFromQuery q F)) F =
     unchanged (nextQuery (stripFieldsFromQuery q F))"
proof -
  consider (same) "stripFieldsFromQuery q F = unchanged q"
    | (narrowed) kvs fs where "q = JObj kvs" "F \<noteq> []"
        "nextQuery (stripFieldsFromQuery q F) =
           JObj (AList.update ''fields''
                  (JArr (filter (\<lambda>f. f \<noteq> JStr ''*'' \<and> f \<notin> JStr ` set F) fs)) kvs)"
    using strip_unchanged_or_narrowed[of q F] by force
  then show ?thesis
  proof cases
    case same
    then show ?thesis by (simp add: unchanged_def)
  next
    case narrowed
    let ?nf = "filter (\<lambda>f. f \<noteq> JStr ''*'' \<and> f \<notin> JStr ` set F) fs"
    have "JStr ` set F \<inter> set ?nf = {}" by auto
    then have "strip_loop F ?nf [] = (?nf, [])" by (rule strip_loop_clean)
    moreover have "JStr ''*'' \<notin> set ?nf" by simp
    ultimately show ?thesis
      using narrowed
      by (simp add: stripFieldsFromQuery_def update_conv' Let_def)
  qed
qed

text \<open>A reported removal always changes the query.\<close>

lemma strip_changed:
  assumes "removedFields (stripFieldsFromQuery q F) \<noteq> [] \<or> removedWildcard (stripFieldsFromQuery q F)"
  shows "nextQuery (stripFieldsFromQuery q F) \<noteq> q"
proof -
  from assms have "stripFieldsFromQuery q F \<noteq> unchanged q"
    by (auto simp: unchanged_def)
  with strip_unchanged_or_narrowed[of q F] obtain kvs fs where
    q: "q = JObj kvs" and fs: "map_of kvs ''fields'' = Some (JArr fs)" and
    r: "stripFieldsFromQuery q F =
        \<lparr>nextQuery = JObj (AList.update ''fields''
                        (JArr (filter (\<lambda>f. f \<noteq> JStr ''*'' \<and> f \<notin> JStr ` set F) fs)) kvs),
         removedFields = snd (strip_loop F (filter (\<lambda>f. f \<noteq> JStr ''*'') fs) []),
         removedWildcard = (JStr ''*'' \<in> set fs)\<rparr>" and
    why: "JStr ''*'' \<in> set fs \<or> snd (strip_loop F (filter (\<lambda>f. f \<noteq> JStr ''*'') fs) []) \<noteq> []"
    by blast
  let ?nf = "filter (\<lambda>f. f \<noteq> JStr ''*'' \<and> f \<notin> JStr ` set F) fs"
  have "set ?nf \<noteq> set fs"
  proof (cases "JStr ''*'' \<in> set fs")
    case True
    then show ?thesis by auto
  next
    case False
    with why obtain x where "x \<in> set (snd (strip_loop F (filter (\<lambda>f. f \<noteq> JStr ''*'') fs) []))"
      by (cases "snd (strip_loop F (filter (\<lambda>f. f \<noteq> JStr ''*'') fs) [])") auto
    with strip_loop_snd_subset[of F "filter (\<lambda>f. f \<noteq> JStr ''*'') fs" "[]"]
    have "x \<in> set F" "JStr x \<in> set fs" by auto
    then show ?thesis by auto
  qed
  then have "?nf \<noteq> fs" by metis
  then have "map_of (AList.update ''fields'' (JArr ?nf) kvs) ''fields'' \<noteq> map_of kvs ''fields''"
    by (simp add: update_conv' fs)
  then have "AList.update ''fields'' (JArr ?nf) kvs \<noteq> kvs" by metis
  with q r show ?thesis by simp
qed

section \<open>Properties of the accountability builder\<close>

lemma builder_admin:
  "acc_admin (buildSimulatedAccountability base (simulated_overrides u r)) = False"
  by (simp add: buildSimulatedAccountability_def simulated_overrides_def Let_def)

lemma builder_role:
  "str_truthy r \<Longrightarrow>
   acc_role (buildSimulatedAccountability base (simulated_overrides u r)) = r \<and>
   acc_roles (buildSimulatedAccountability base (simulated_overrides u r)) = Some [the r]"
  by (simp add: buildSimulatedAccountability_def simulated_overrides_def Let_def)

section \<open>The shape of a run of the handler\<close>

lemma validate_Inr:
  assumes "validate parse req = Inr v"
  shows "req_accountability req = Some (v_requester v) \<and> acc_admin (v_requester v) \<and>
         mode_of (nullish_or (b_mode (req_body req)) (JStr ''requester'')) = Some (v_mode v)"
  using assms unfolding validate_def
  by (auto simp: Let_def split: option.splits if_splits json.splits sum.splits)

lemma resolve_user_events:
  assumes "resolve_user ctx userId roleId s = (r, evs, s')"
  shows "filter is_simulated_read evs = []"
  using assms unfolding resolve_user_def
  by (auto simp: Let_def split: if_splits prod.splits sum.splits option.splits)

lemma build_accountability_events:
  assumes "build_accountability ctx v b s = (r, evs, s')"
  shows "filter is_simulated_read evs = []"
  using assms unfolding build_accountability_def
  by (auto simp: Let_def dest: resolve_user_events
      split: SimulationMode.splits if_splits prod.splits sum.splits option.splits json.splits)

lemma build_accountability_not_admin:
  assumes "build_accountability ctx v b s = (Inr (acc, w), evs, s')" and "v_mode v \<noteq> Requester"
  shows "\<not> acc_admin acc"
  using assms unfolding build_accountability_def
  by (auto simp: builder_admin
      split: SimulationMode.splits option.splits json.splits if_splits prod.splits sum.splits)

lemma requester_read_events:
  assumes "requester_read ctx v s = (r, evs, s')"
  shows "filter is_simulated_read evs = []"
  using assms unfolding requester_read_def
  by (auto split: if_splits prod.splits sum.splits)

lemma requester_read_no_lookup:
  assumes "requester_read ctx v s = (r, evs, s')"
  shows "filter is_user_lookup evs = []"
  using assms unfolding requester_read_def
  by (auto split: if_splits prod.splits sum.splits)

text \<open>The four ways the simulated query can go.\<close>

lemma simulated_read_cases:
  assumes "simulated_read ctx acc c q s = (r, evs, s')"
  obtains
    (primary_ok) items where
      "r = Inr (items, [])" "evs = [Read SimulatedService acc c q (Inr items)]"
  | (no_retry) err where
      "r = Inl (Thrown err)" "evs = [Read SimulatedService acc c q (Inl err)]"
  | (retry_failed) err err2 where
      "r = Inl (Thrown err2)"
      "evs = [Read SimulatedService acc c q (Inl err),
              Read SimulatedService acc c
                (nextQuery (stripFieldsFromQuery q (extractForbiddenFields (reason_of err))))
                (Inl err2)]"
      "removedFields (stripFieldsFromQuery q (extractForbiddenFields (reason_of err))) \<noteq> [] \<or>
       removedWildcard (stripFieldsFromQuery q (extractForbiddenFields (reason_of err)))"
  | (retry_ok) err items where
      "r = Inr (items,
         (if removedWildcard (stripFieldsFromQuery q (extractForbiddenFields (reason_of err)))
          then [wildcard_warning] else []) @
         (if removedFields (stripFieldsFromQuery q (extractForbiddenFields (reason_of err))) \<noteq> []
          then [removed_warning
                  (removedFields (stripFieldsFromQuery q (extractForbiddenFields (reason_of err))))]
          else []))"
      "evs = [Read SimulatedService acc c q (Inl err),
              Read SimulatedService acc c
                (nextQuery (stripFieldsFromQuery q (extractForbiddenFields (reason_of err))))
                (Inr items)]"
      "removedFields (stripFieldsFromQuery q (extractForbiddenFields (reason_of err))) \<noteq> [] \<or>
       removedWildcard (stripFieldsFromQuery q (extractForbiddenFields (reason_of err)))"
  using assms unfolding simulated_read_def
  by (auto simp: Let_def split: if_splits prod.splits sum.splits)

lemma simulated_read_accountability:
  assumes "simulated_read ctx acc c q s = (r, evs, s')"
    and "Read SimulatedService acc' c' q' x \<in> set evs"
  shows "acc' = acc"
  using assms(1)
  by (cases rule: simulated_read_cases) (use assms(2) in auto)

lemma simulated_read_no_lookup:
  assumes "simulated_read ctx acc c q s = (r, evs, s')"
  shows "filter is_user_lookup evs = []"
  using assms by (cases rule: simulated_read_cases) auto

lemma status_warning_distinct:
  "status_warning st \<noteq> wildcard_warning" "status_warning st \<noteq> removed_warning xs"
  by (simp_all add: status_warning_def wildcard_warning_def removed_warning_def)

lemma simulated_read_warnings:
  assumes "simulated_read ctx acc c q s = (Inr (items, w), evs, s')"
  shows "status_warning st \<notin> set w"
  using assms
  by (cases rule: simulated_read_cases) (auto simp: status_warning_distinct)

lemma no_simulated_read:
  assumes "filter is_simulated_read evs = []"
  shows "Read SimulatedService acc c q x \<notin> set evs"
proof
  assume "Read SimulatedService acc c q x \<in> set evs"
  then have "Read SimulatedService acc c q x \<in> set (filter is_simulated_read evs)" by simp
  with assms show False by simp
qed

text \<open>The six ways a request can end.\<close>

lemma simulate_cases:
  assumes "simulate ctx req s = (out, evs, s')"
  obtains
    (rejected) e where "validate (json_parse ctx) req = Inl e" "out = Next e" "evs = []" "s' = s"
  | (no_context) v e where
      "validate (json_parse ctx) req = Inr v"
      "build_accountability ctx v (req_body req) s = (Inl e, evs, s')" "out = Next e"
  | (no_schema) v acc w evs1 s1 e where
      "validate (json_parse ctx) req = Inr v"
      "build_accountability ctx v (req_body req) s = (Inr (acc, w), evs1, s1)"
      "out = Next (Thrown e)" "evs = evs1 @ [GetSchema]"
  | (simulated_failed) v acc w evs1 s1 s2 e evs3 where
      "validate (json_parse ctx) req = Inr v"
      "build_accountability ctx v (req_body req) s = (Inr (acc, w), evs1, s1)"
      "simulated_read ctx acc (v_collection v) (v_query v) s2 = (Inl e, evs3, s')"
      "out = Next e" "evs = evs1 @ [GetSchema] @ evs3"
  | (requester_failed) v acc w evs1 s1 s2 items w3 evs3 s3 e evs4 where
      "validate (json_parse ctx) req = Inr v"
      "build_accountability ctx v (req_body req) s = (Inr (acc, w), evs1, s1)"
      "simulated_read ctx acc (v_collection v) (v_query v) s2 = (Inr (items, w3), evs3, s3)"
      "requester_read ctx v s3 = (Inl e, evs4, s')"
      "out = Next e" "evs = evs1 @ [GetSchema] @ evs3 @ evs4"
  | (responded) v acc w evs1 s1 s2 items w3 evs3 s3 ritems evs4 where
      "validate (json_parse ctx) req = Inr v"
      "build_accountability ctx v (req_body req) s = (Inr (acc, w), evs1, s1)"
      "simulated_read ctx acc (v_collection v) (v_query v) s2 = (Inr (items, w3), evs3, s3)"
      "requester_read ctx v s3 = (Inr ritems, evs4, s')"
      "out = Json \<lparr>res_mode = v_mode v, res_collection = v_collection v,
                    res_query = v_query v, res_warnings = w @ w3, res_simulated = items,
                    res_requester = (if v_includeRequester v then Some ritems else None),
                    res_hints = (if v_includeRequester v
                                 then buildHints (getFirstItem ritems) (getFirstItem items)
                                 else [])\<rparr>"
      "evs = evs1 @ [GetSchema] @ evs3 @ evs4"
  using assms unfolding simulate_def
  by (auto split: sum.splits prod.splits option.splits)

text \<open>Every simulated read of a run uses the accountability built for the mode.\<close>

lemma simulate_read_accountability:
  assumes "simulate ctx req s = (out, evs, s')"
    and "Read SimulatedService acc c q x \<in> set evs"
  obtains v w evs1 s1 where
    "validate (json_parse ctx) req = Inr v"
    "build_accountability ctx v (req_body req) s = (Inr (acc, w), evs1, s1)"
  using assms(1)
proof (cases rule: simulate_cases)
  case (rejected e)
  with assms(2) show ?thesis by simp
next
  case (no_context v e)
  have "Read SimulatedService acc c q x \<notin> set evs"
    using no_context(2) by (intro no_simulated_read build_accountability_events)
  with assms(2) show ?thesis by simp
next
  case (no_schema v acc0 w evs1 s1 e)
  have "Read SimulatedService acc c q x \<notin> set evs1"
    using no_schema(2) by (intro no_simulated_read build_accountability_events)
  with assms(2) no_schema(4) show ?thesis by simp
next
  case (simulated_failed v acc0 w evs1 s1 s2 e evs3)
  have "Read SimulatedService acc c q x \<notin> set evs1"
    using simulated_failed(2) by (intro no_simulated_read build_accountability_events)
  with assms(2) simulated_failed(5) have "Read SimulatedService acc c q x \<in> set evs3" by simp
  with simulated_failed(3) have "acc = acc0" by (rule simulated_read_accountability)
  with simulated_failed(1,2) that show ?thesis by blast
next
  case (requester_failed v acc0 w evs1 s1 s2 items w3 evs3 s3 e evs4)
  have "Read SimulatedService acc c q x \<notin> set evs1"
    using requester_failed(2) by (intro no_simulated_read build_accountability_events)
  moreover have "Read SimulatedService acc c q x \<notin> set evs4"
    using requester_failed(4) by (intro no_simulated_read requester_read_events)
  ultimately have "Read SimulatedService acc c q x \<in> set evs3"
    using assms(2) requester_failed(6) by simp
  with requester_failed(3) have "acc = acc0" by (rule simulated_read_accountability)
  with requester_failed(1,2) that show ?thesis by blast
next
  case (responded v acc0 w evs1 s1 s2 items w3 evs3 s3 ritems evs4)
  have "Read SimulatedService acc c q x \<notin> set evs1"
    using responded(2) by (intro no_simulated_read build_accountability_events)
  moreover have "Read SimulatedService acc c q x \<notin> set evs4"
    using responded(4) by (intro no_simulated_read requester_read_events)
  ultimately have "Read SimulatedService acc c q x \<in> set evs3"
    using assms(2) responded(6) by simp
  with responded(3) have "acc = acc0" by (rule simulated_read_accountability)
  with responded(1,2) that show ?thesis by blast
qed

text \<open>A role id given as a non-empty string settles the simulated user without a lookup.\<close>

lemma resolve_user_supplied:
  "roleId \<noteq> [] \<Longrightarrow>
   resolve_user ctx userId (Some (JStr roleId)) s = (Inr (Some roleId, None), [], s)"
  by (simp add: resolve_user_def str_truthy_def)

lemma build_accountability_supplied:
  assumes "v_mode v = User" and "b_roleId b = Some (JStr roleId)" and "roleId \<noteq> []"
  shows "build_accountability ctx v b s =
     (case b_userId b of
        Some (JStr userId) \<Rightarrow>
          if userId = [] then (Inl BadRequestError, [], s)
          else (Inr (buildSimulatedAccountability (v_requester v)
                       (simulated_overrides (Some userId) (Some roleId)), []), [], s)
      | _ \<Rightarrow> (Inl BadRequestError, [], s))"
  using assms
  by (simp add: build_accountability_def resolve_user_supplied str_truthy_def
      split: option.splits json.splits)

lemma simulated_read_database:
  "simulated_read (ctx\<lparr>database_first := d\<rparr>) acc c q s = simulated_read ctx acc c q s"
  by (simp add: simulated_read_def Let_def split: prod.splits sum.splits)

lemma requester_read_database:
  "requester_read (ctx\<lparr>database_first := d\<rparr>) v s = requester_read ctx v s"
  by (simp add: requester_read_def split: prod.splits sum.splits)

section \<open>The worked scenario, run\<close>

lemma extract_secret_denied:
  "extractForbiddenFields (reason_of secret_denied) = [''secret_note'']"
  by code_simp

lemma strip_posts_query:
  "stripFieldsFromQuery posts_query [''secret_note''] =
     \<lparr>nextQuery = narrowed_posts_query, removedFields = [''secret_note''], removedWildcard = False\<rparr>"
  by (simp add: stripFieldsFromQuery_def posts_query_def narrowed_posts_query_def Let_def unchanged_def)

lemma posts_queries_differ: "posts_query \<noteq> narrowed_posts_query"
  by (simp add: posts_query_def narrowed_posts_query_def)

lemma validate_posts:
  "mode_of (nullish_or mode (JStr ''requester'')) = Some m \<Longrightarrow>
   validate (json_parse ctx) (posts_request mode userId roleId) = Inr (validated_posts m)"
  by (simp add: validate_def posts_request_def admin_accountability_def validated_posts_def
      nullish_or_def parseJsonIfNeeded_def posts_query_def)

lemma build_public:
  "buildSimulatedAccountability admin_accountability (simulated_overrides None None) =
     public_accountability"
  by (simp add: buildSimulatedAccountability_def admin_accountability_def
      simulated_overrides_def public_accountability_def str_truthy_def)

lemma build_editor:
  "buildSimulatedAccountability admin_accountability
     (simulated_overrides (Some ''ghost'') (Some ''editor'')) = editor_accountability"
  by (simp add: buildSimulatedAccountability_def admin_accountability_def
      simulated_overrides_def editor_accountability_def str_truthy_def)

lemma narrowed_read:
  assumes "\<not> acc_admin acc"
  shows "simulated_read posts_context acc ''posts'' posts_query 0 =
      (Inr ([title_row], [removed_warning [''secret_note'']]),
       [Read SimulatedService acc ''posts'' posts_query (Inl secret_denied),
        Read SimulatedService acc ''posts'' narrowed_posts_query (Inr [title_row])],
       2)"
  using assms
  by (simp add: simulated_read_def posts_context_def posts_queries_differ
      extract_secret_denied strip_posts_query)

lemma admin_read:
  "requester_read posts_context (validated_posts m) s =
      (Inr [full_row],
       [Read RequesterService admin_accountability ''posts'' posts_query (Inr [full_row])], Suc s)"
  by (simp add: requester_read_def posts_context_def validated_posts_def admin_accountability_def)

lemma narrowed_hints:
  "buildHints (getFirstItem [full_row]) (getFirstItem [title_row]) =
      [\<lparr>hint_field = ''secret_note'', hint_type = Missing, hint_note = note_missing\<rparr>]"
  by (simp add: getFirstItem_def full_row_def title_row_def js_in_def object_prototype_keys_def)

lemma public_run:
  "simulate posts_context (posts_request (Some (JStr ''public'')) None None) 0 =
     (Json (narrowed_response Public), narrowed_events public_accountability, 3)"
proof -
  have v: "validate (json_parse posts_context) (posts_request (Some (JStr ''public'')) None None) =
      Inr (validated_posts Public)"
    by (rule validate_posts) (simp add: nullish_or_def mode_of_def)
  have sr: "simulated_read posts_context public_accountability
      (v_collection (validated_posts Public)) (v_query (validated_posts Public)) 0 =
      (Inr ([title_row], [removed_warning [''secret_note'']]),
       [Read SimulatedService public_accountability ''posts'' posts_query (Inl secret_denied),
        Read SimulatedService public_accountability ''posts'' narrowed_posts_query (Inr [title_row])],
       2)"
    using narrowed_read[of public_accountability]
    by (simp add: validated_posts_def public_accountability_def)
  have gs: "getSchema posts_context 0 = (None, 0)"
    by (simp add: posts_context_def)
  have b: "build_accountability posts_context (validated_posts Public) b 0 =
      (Inr (public_accountability, []), [], 0)" for b
    by (simp add: build_accountability_def validated_posts_def build_public)
  show ?thesis
    by (simp add: simulate_def v b gs sr admin_read narrowed_hints)
       (simp add: narrowed_response_def narrowed_events_def validated_posts_def)
qed

lemma editor_run:
  "simulate posts_context
     (posts_request (Some (JStr ''user'')) (Some (JStr ''ghost'')) (Some (JStr ''editor''))) 0 =
     (Json (narrowed_response User), narrowed_events editor_accountability, 3)"
proof -
  have v: "validate (json_parse posts_context)
      (posts_request (Some (JStr ''user'')) (Some (JStr ''ghost'')) (Some (JStr ''editor''))) =
      Inr (validated_posts User)"
    by (rule validate_posts) (simp add: nullish_or_def mode_of_def)
  have sr: "simulated_read posts_context editor_accountability
      (v_collection (validated_posts User)) (v_query (validated_posts User)) 0 =
      (Inr ([title_row], [removed_warning [''secret_note'']]),
       [Read SimulatedService editor_accountability ''posts'' posts_query (Inl secret_denied),
        Read SimulatedService editor_accountability ''posts'' narrowed_posts_query (Inr [title_row])],
       2)"
    using narrowed_read[of editor_accountability]
    by (simp add: validated_posts_def editor_accountability_def)
  have gs: "getSchema posts_context 0 = (None, 0)"
    by (simp add: posts_context_def)
  have b: "build_accountability posts_context (validated_posts User)
      (req_body (posts_request (Some (JStr ''user'')) (Some (JStr ''ghost'')) (Some (JStr ''editor''))))
      0 = (Inr (editor_accountability, []), [], 0)"
    by (simp add: build_accountability_def validated_posts_def build_editor posts_request_def
        resolve_user_supplied str_truthy_def)
  show ?thesis
    by (simp add: simulate_def v b gs sr admin_read narrowed_hints)
       (simp add: narrowed_response_def narrowed_events_def validated_posts_def)
qed

lemma denying_run:
  "simulate denying_context (posts_request (Some (JStr ''public'')) None None) 0 =
     (Next (Thrown secret_denied),
      [GetSchema,
       Read SimulatedService public_accountability ''posts'' posts_query (Inl secret_denied),
       Read SimulatedService public_accountability ''posts'' narrowed_posts_query (Inl secret_denied)],
      2)"
proof -
  have v: "validate (json_parse denying_context) (posts_request (Some (JStr ''public'')) None None) =
      Inr (validated_posts Public)"
    by (rule validate_posts) (simp add: nullish_or_def mode_of_def)
  have na: "\<not> acc_admin public_accountability"
    by (simp add: public_accountability_def)
  have sr: "simulated_read denying_context public_accountability
      (v_collection (validated_posts Public)) (v_query (validated_posts Public)) 0 =
      (Inl (Thrown secret_denied),
       [Read SimulatedService public_accountability ''posts'' posts_query (Inl secret_denied),
        Read SimulatedService public_accountability ''posts'' narrowed_posts_query (Inl secret_denied)],
       2)"
    by (simp add: simulated_read_def denying_context_def na extract_secret_denied
        strip_posts_query validated_posts_def)
  have gs: "getSchema denying_context 0 = (None, 0)"
    by (simp add: denying_context_def)
  have b: "build_accountability denying_context (validated_posts Public) b 0 =
      (Inr (public_accountability, []), [], 0)" for b
    by (simp add: build_accountability_def validated_posts_def build_public)
  show ?thesis
    by (simp add: simulate_def v b gs sr)
qed

section \<open>The caller, the mode and the role id\<close>

text \<open>A caller without administrator access is turned away before anything else.\<close>

lemma forbidden_caller:
  assumes "req_accountability req = None \<or> (\<exists>a. req_accountability req = Some a \<and> \<not> acc_admin a)"
  shows "simulate ctx req s = (Next ForbiddenError, [], s)"
  using assms by (auto simp: simulate_def validate_def)

lemma build_accountability_mode:
  "build_accountability ctx v (b\<lparr>b_mode := m\<rparr>) s = build_accountability ctx v b s"
  by (simp add: build_accountability_def
      cong: SimulationMode.case_cong option.case_cong json.case_cong if_cong)

lemma default_mode:
  assumes "b_mode (req_body req) = None \<or> b_mode (req_body req) = Some JNull"
  shows "simulate ctx (req\<lparr>req_body := (req_body req)\<lparr>b_mode := Some (JStr ''requester'')\<rparr>\<rparr>) s =
         simulate ctx req s"
proof -
  have "validate p (req\<lparr>req_body := (req_body req)\<lparr>b_mode := Some (JStr ''requester'')\<rparr>\<rparr>) =
        validate p req" for p
    using assms
    by (auto simp: validate_def nullish_or_def Let_def
        cong: option.case_cong json.case_cong if_cong sum.case_cong)
  then show ?thesis
    by (simp add: simulate_def build_accountability_mode
        cong: sum.case_cong)
qed

lemma resolve_user_lookup:
  assumes "\<forall>r. roleId = Some (JStr r) \<longrightarrow> r = []"
  shows "resolve_user ctx userId roleId s =
     (case database_first ctx s userId of
        (Inl e, s') \<Rightarrow> (Inl (Thrown e), [UserLookup userId (Inl e)], s')
      | (Inr None, s') \<Rightarrow> (Inl BadRequestError, [UserLookup userId (Inr None)], s')
      | (Inr (Some userRow), s') \<Rightarrow>
          (Inr (ur_role userRow, ur_status userRow),
           [UserLookup userId (Inr (Some userRow))], s'))"
  using assms
  by (auto simp: resolve_user_def str_truthy_def Let_def split: option.splits json.splits)

lemma resolve_user_lookup_events:
  assumes "\<forall>r. roleId = Some (JStr r) \<longrightarrow> r = []"
    and "resolve_user ctx userId roleId s = (r, evs, s')"
  shows "evs = [UserLookup userId (fst (database_first ctx s userId))] \<and>
         s' = snd (database_first ctx s userId) \<and>
         (fst (database_first ctx s userId) = Inr None \<longrightarrow> r = Inl BadRequestError)"
  using assms(2) unfolding resolve_user_lookup[OF assms(1)]
  by (auto split: prod.splits sum.splits option.splits)

lemma build_accountability_lookup:
  assumes "v_mode v = User" and "b_userId b = Some (JStr userId)" and "userId \<noteq> []"
    and "\<forall>r. b_roleId b = Some (JStr r) \<longrightarrow> r = []"
    and "build_accountability ctx v b s = (r, evs, s')"
  shows "evs = [UserLookup userId (fst (database_first ctx s userId))] \<and>
         s' = snd (database_first ctx s userId) \<and>
         (fst (database_first ctx s userId) = Inr None \<longrightarrow> r = Inl BadRequestError)"
proof -
  obtain r0 evs0 s0 where ru: "resolve_user ctx userId (b_roleId b) s = (r0, evs0, s0)"
    by (cases "resolve_user ctx userId (b_roleId b) s") auto
  from resolve_user_lookup_events[OF assms(4) ru] assms(1,2,3,5) ru show ?thesis
    by (auto simp: build_accountability_def split: sum.splits prod.splits)
qed

lemma role_not_supplied:
  assumes "validate (json_parse ctx) req = Inr v"
    and "b_mode (req_body req) = Some (JStr ''user'')"
    and "b_userId (req_body req) = Some (JStr userId)" and "userId \<noteq> []"
    and "\<forall>r. b_roleId (req_body req) = Some (JStr r) \<longrightarrow> r = []"
  shows "(\<exists>evs'. fst (snd (simulate ctx req s)) =
            UserLookup userId (fst (database_first ctx s userId)) # evs') \<and>
         (fst (database_first ctx s userId) = Inr None \<longrightarrow>
            simulate ctx req s =
              (Next BadRequestError, [UserLookup userId (Inr None)],
               snd (database_first ctx s userId)))"
proof -
  have mode: "v_mode v = User"
    using validate_Inr[OF assms(1)] assms(2) by (auto simp: nullish_or_def mode_of_def)
  obtain r evs1 s1 where b: "build_accountability ctx v (req_body req) s = (r, evs1, s1)"
    by (cases "build_accountability ctx v (req_body req) s") auto
  note l = build_accountability_lookup[OF mode assms(3,4,5) b]
  obtain out evs s' where run: "simulate ctx req s = (out, evs, s')"
    by (cases "simulate ctx req s") auto
  from run have "\<exists>evs'. evs = evs1 @ evs' \<and> (\<forall>e. r = Inl e \<longrightarrow> out = Next e \<and> evs' = [] \<and> s' = s1)"
    using assms(1) b
    by (auto simp: simulate_def split: sum.splits prod.splits option.splits)
  with l run show ?thesis by auto
qed

lemma role_supplied:
  assumes "simulate ctx req s = (out, evs, s')"
    and "b_mode (req_body req) = Some (JStr ''user'')"
    and "b_roleId (req_body req) = Some (JStr roleId)"
    and "roleId \<noteq> []"
  shows "filter is_user_lookup evs = [] \<and>
         simulate (ctx\<lparr>database_first := d\<rparr>) req s = (out, evs, s') \<and>
         (\<forall>res. out = Json res \<longrightarrow> status_warning st \<notin> set (res_warnings res)) \<and>
         (\<forall>acc c q x. Read SimulatedService acc c q x \<in> set evs \<longrightarrow>
            acc_role acc = Some roleId \<and> acc_roles acc = Some [roleId])"
proof -
  have mode: "v_mode v = User" if "validate (json_parse ctx) req = Inr v" for v
    using validate_Inr[OF that] assms(2) by (auto simp: nullish_or_def mode_of_def)
  have built: "build_accountability c' v (req_body req) s0 =
     (case b_userId (req_body req) of
        Some (JStr userId) \<Rightarrow>
          if userId = [] then (Inl BadRequestError, [], s0)
          else (Inr (buildSimulatedAccountability (v_requester v)
                       (simulated_overrides (Some userId) (Some roleId)), []), [], s0)
      | _ \<Rightarrow> (Inl BadRequestError, [], s0))"
    if "validate (json_parse ctx) req = Inr v" for v s0 and c' :: "'a endpoint_context"
    using mode[OF that] assms(3,4) by (rule build_accountability_supplied)
  have indep: "simulate (ctx\<lparr>database_first := d\<rparr>) req s = simulate ctx req s"
  proof (cases "validate (json_parse ctx) req")
    case (Inl e)
    then show ?thesis by (simp add: simulate_def)
  next
    case (Inr v)
    have "build_accountability (ctx\<lparr>database_first := d\<rparr>) v (req_body req) s =
          build_accountability ctx v (req_body req) s"
      by (simp only: built[OF Inr])
    with Inr show ?thesis
      by (simp add: simulate_def simulated_read_database requester_read_database
          cong: prod.case_cong sum.case_cong option.case_cong)
  qed
  have role: "acc_role acc = Some roleId \<and> acc_roles acc = Some [roleId]"
    if "Read SimulatedService acc c q x \<in> set evs" for acc c q x
  proof -
    from assms(1) that obtain v w evs1 s1 where
      v: "validate (json_parse ctx) req = Inr v" and
      b: "build_accountability ctx v (req_body req) s = (Inr (acc, w), evs1, s1)"
      by (rule simulate_read_accountability)
    from b built[OF v, of ctx s] obtain userId where
      "acc = buildSimulatedAccountability (v_requester v)
               (simulated_overrides (Some userId) (Some roleId))"
      by (auto split: option.splits json.splits if_splits)
    with builder_role[of "Some roleId" "v_requester v" "Some userId"] assms(4)
    show ?thesis by (simp add: str_truthy_def)
  qed
  have rest: "filter is_user_lookup evs = [] \<and>
      (\<forall>res. out = Json res \<longrightarrow> status_warning st \<notin> set (res_warnings res))"
    using assms(1)
  proof (cases rule: simulate_cases)
    case (rejected e)
    then show ?thesis by simp
  next
    case (no_context v e)
    with built[OF no_context(1), of ctx s] show ?thesis
      by (auto split: option.splits json.splits if_splits)
  next
    case (no_schema v acc w evs1 s1 e)
    with built[OF no_schema(1), of ctx s] show ?thesis
      by (auto split: option.splits json.splits if_splits)
  next
    case (simulated_failed v acc w evs1 s1 s2 e evs3)
    have "evs1 = []"
      using simulated_failed(2) built[OF simulated_failed(1), of ctx s]
      by (auto split: option.splits json.splits if_splits)
    with simulated_failed simulated_read_no_lookup[OF simulated_failed(3)] show ?thesis
      by simp
  next
    case (requester_failed v acc w evs1 s1 s2 items w3 evs3 s3 e evs4)
    have "evs1 = []"
      using requester_failed(2) built[OF requester_failed(1), of ctx s]
      by (auto split: option.splits json.splits if_splits)
    with requester_failed simulated_read_no_lookup[OF requester_failed(3)]
      requester_read_no_lookup[OF requester_failed(4)] show ?thesis
      by simp
  next
    case (responded v acc w evs1 s1 s2 items w3 evs3 s3 ritems evs4)
    have "evs1 = [] \<and> w = []"
      using responded(2) built[OF responded(1), of ctx s]
      by (auto split: option.splits json.splits if_splits)
    with responded simulated_read_no_lookup[OF responded(3)]
      requester_read_no_lookup[OF responded(4)] simulated_read_warnings[OF responded(3)]
    show ?thesis by simp
  qed
  from rest indep assms(1) role show ?thesis by simp
qed


lemma number_role_run:
  "simulate posts_context
     (posts_request (Some (JStr ''user'')) (Some (JStr ''ghost'')) (Some (JNum 5))) 0 =
   (Next BadRequestError, [UserLookup ''ghost'' (Inr None)], 0)"
  by (simp add: simulate_def validate_def posts_request_def admin_accountability_def mode_of_def
      nullish_or_def parseJsonIfNeeded_def posts_query_def build_accountability_def
      resolve_user_def str_truthy_def posts_context_def)

section \<open>The claims\<close>

subsection \<open>C1: the query of the response\<close>

text \<open>
  C1, as the handler behaves: whenever the primary simulated attempt fails and the
  single retry succeeds, the \<^verbatim>\<open>query\<close> field of the success response is the
  query of the request as parsed (the one of the failed primary attempt), while the
  retry used the narrowed query, which is a different query; the items of the response
  are those of the retry. The narrowing shows in the warnings: something was removed,
  and the warnings of the response end with the wildcard warning when the wildcard was
  removed, followed by the removed-fields warning when fields were removed.
\<close>

theorem response_query_is_request_query:
  assumes "simulate ctx req s = (Json res, evs, s')"
    and "filter is_simulated_read evs =
           [Read SimulatedService acc1 c1 q1 (Inl err), Read SimulatedService acc2 c2 q2 (Inr items)]"
  shows "res_query res = q1 \<and>
         q2 = nextQuery (stripFieldsFromQuery q1 (extractForbiddenFields (reason_of err))) \<and>
         q2 \<noteq> q1 \<and> res_simulated res = items \<and>
         (removedWildcard (stripFieldsFromQuery q1 (extractForbiddenFields (reason_of err))) \<or>
          removedFields (stripFieldsFromQuery q1 (extractForbiddenFields (reason_of err))) \<noteq> []) \<and>
         (\<exists>w. res_warnings res =
            w @
            (if removedWildcard (stripFieldsFromQuery q1 (extractForbiddenFields (reason_of err)))
             then [wildcard_warning] else []) @
            (if removedFields (stripFieldsFromQuery q1 (extractForbiddenFields (reason_of err))) \<noteq> []
             then [removed_warning
                     (removedFields
                        (stripFieldsFromQuery q1 (extractForbiddenFields (reason_of err))))]
             else []))"
  using assms(1)
proof (cases rule: simulate_cases)
  case (responded v acc w evs1 s1 s2 items' w3 evs3 s3 ritems evs4)
  have e1: "filter is_simulated_read evs1 = []"
    using responded(2) by (rule build_accountability_events)
  have e4: "filter is_simulated_read evs4 = []"
    using responded(4) by (rule requester_read_events)
  from responded(6) assms(2) e1 e4 have evs3: "filter is_simulated_read evs3 =
      [Read SimulatedService acc1 c1 q1 (Inl err), Read SimulatedService acc2 c2 q2 (Inr items)]"
    by simp
  from responded(3) show ?thesis
  proof (cases rule: simulated_read_cases)
    case (retry_ok err' items'')
    with evs3 have same: "acc1 = acc" "q1 = v_query v" "err' = err" "items'' = items"
      "q2 = nextQuery (stripFieldsFromQuery q1 (extractForbiddenFields (reason_of err)))"
      by auto
    from retry_ok(3) same have reported:
      "removedWildcard (stripFieldsFromQuery q1 (extractForbiddenFields (reason_of err))) \<or>
       removedFields (stripFieldsFromQuery q1 (extractForbiddenFields (reason_of err))) \<noteq> []"
      by auto
    then have changed: "q2 \<noteq> q1"
      using strip_changed[of q1 "extractForbiddenFields (reason_of err)"] same(5) by auto
    from retry_ok(1) same have w3: "w3 =
        (if removedWildcard (stripFieldsFromQuery q1 (extractForbiddenFields (reason_of err)))
         then [wildcard_warning] else []) @
        (if removedFields (stripFieldsFromQuery q1 (extractForbiddenFields (reason_of err))) \<noteq> []
         then [removed_warning
                 (removedFields
                    (stripFieldsFromQuery q1 (extractForbiddenFields (reason_of err))))]
         else [])" and items: "items' = items"
      by simp_all
    have "res_warnings res = w @ w3" "res_query res = q1" "res_simulated res = items"
      using responded(5) same(2) items by simp_all
    with w3 same(5) changed reported show ?thesis by blast
  qed (use evs3 in simp_all)
qed simp_all

text \<open>
  C1 at the scenario: the public simulation of \<^verbatim>\<open>posts\<close> is refused
  \<^verbatim>\<open>secret_note\<close>, succeeds on the retry, answers with the query of the request,
  and its warnings end with the one that names \<^verbatim>\<open>secret_note\<close>.
\<close>

theorem response_query_is_request_query_witness:
  "res_query (narrowed_response Public) = posts_query \<and>
   narrowed_posts_query =
     nextQuery (stripFieldsFromQuery posts_query (extractForbiddenFields (reason_of secret_denied))) \<and>
   narrowed_posts_query \<noteq> posts_query \<and>
   res_simulated (narrowed_response Public) = [title_row] \<and>
   (\<exists>w. res_warnings (narrowed_response Public) = w @ [removed_warning [''secret_note'']])"
proof -
  have reads: "filter is_simulated_read (narrowed_events public_accountability) =
      [Read SimulatedService public_accountability ''posts'' posts_query (Inl secret_denied),
       Read SimulatedService public_accountability ''posts'' narrowed_posts_query (Inr [title_row])]"
    by (simp add: narrowed_events_def)
  note run = response_query_is_request_query [OF public_run reads]
  from run have "res_query (narrowed_response Public) = posts_query"
    "narrowed_posts_query =
       nextQuery (stripFieldsFromQuery posts_query (extractForbiddenFields (reason_of secret_denied)))"
    "narrowed_posts_query \<noteq> posts_query"
    "res_simulated (narrowed_response Public) = [title_row]"
    by blast+
  moreover from run have "\<exists>w. res_warnings (narrowed_response Public) =
      w @ (if removedWildcard (stripFieldsFromQuery posts_query
                (extractForbiddenFields (reason_of secret_denied)))
           then [wildcard_warning] else []) @
          (if removedFields (stripFieldsFromQuery posts_query
                (extractForbiddenFields (reason_of secret_denied))) \<noteq> []
           then [removed_warning (removedFields (stripFieldsFromQuery posts_query
                   (extractForbiddenFields (reason_of secret_denied))))]
           else [])"
    by blast
  then have "\<exists>w. res_warnings (narrowed_response Public) = w @ [removed_warning [''secret_note'']]"
    by (simp add: extract_secret_denied strip_posts_query)
  ultimately show ?thesis by blast
qed

text \<open>
  C1 as stated fails: in the same run the final successful attempt used
  \<open>narrowed_posts_query\<close>, and the response carries \<open>posts_query\<close>.
\<close>

theorem effective_query_counterexample:
  "simulate posts_context (posts_request (Some (JStr ''public'')) None None) 0 =
     (Json (narrowed_response Public),
      [GetSchema,
       Read SimulatedService public_accountability ''posts'' posts_query (Inl secret_denied),
       Read SimulatedService public_accountability ''posts'' narrowed_posts_query (Inr [title_row]),
       Read RequesterService admin_accountability ''posts'' posts_query (Inr [full_row])],
      3) \<and>
   res_query (narrowed_response Public) = posts_query \<and>
   posts_query \<noteq> narrowed_posts_query"
  by (simp add: public_run narrowed_events_def posts_queries_differ)
     (simp add: narrowed_response_def)

subsection \<open>C2: the differ on the example rows\<close>

text \<open>
  C2, as the differ behaves: for the baseline row \<^verbatim>\<open>{a:1, b:null, c:"x"}\<close> and the
  simulated row \<^verbatim>\<open>{a:1, c:null}\<close> the hints are a \<^verbatim>\<open>missing\<close> hint for
  \<^verbatim>\<open>b\<close>, which the simulated row lacks, followed by a \<^verbatim>\<open>null\<close> hint for
  \<^verbatim>\<open>c\<close>; there is no hint for \<^verbatim>\<open>a\<close>.
\<close>

theorem differ_example:
  "buildHints (Some [(''a'', JNum 1), (''b'', JNull), (''c'', JStr ''x'')])
              (Some [(''a'', JNum 1), (''c'', JNull)]) =
     [\<lparr>hint_field = ''b'', hint_type = Missing, hint_note = note_missing\<rparr>,
      \<lparr>hint_field = ''c'', hint_type = Null, hint_note = note_null\<rparr>]"
  by (simp add: js_in_def object_prototype_keys_def)

text \<open>C2 read off the result: the hinted fields are \<^verbatim>\<open>b\<close> and \<^verbatim>\<open>c\<close>, in that order.\<close>

theorem differ_example_witness:
  "map hint_field
     (buildHints (Some [(''a'', JNum 1), (''b'', JNull), (''c'', JStr ''x'')])
                 (Some [(''a'', JNum 1), (''c'', JNull)])) = [''b'', ''c'']"
  using differ_example by simp

text \<open>C2 as stated fails: the hints are not the single hint for \<^verbatim>\<open>c\<close>.\<close>

theorem differ_example_counterexample:
  "map hint_field
     (buildHints (Some [(''a'', JNum 1), (''b'', JNull), (''c'', JStr ''x'')])
                 (Some [(''a'', JNum 1), (''c'', JNull)])) \<noteq> [''c'']"
  by (simp add: js_in_def object_prototype_keys_def)

subsection \<open>C3: what the mutator removes\<close>

text \<open>
  C3, as the mutator behaves: for every query and forbidden set, either the original
  query is returned unchanged with empty removal lists, or the query is an object whose
  field list is not made of wildcards only, and the returned query is that object with
  \<^verbatim>\<open>fields\<close> replaced by the original list without the wildcard and without the
  forbidden names, in the original order. In that case every removed entry is a
  forbidden name or the wildcard, the removed names reported are forbidden names that
  occurred in the list, \<open>removedWildcard\<close> tells whether the list held the wildcard,
  and something is reported: the narrowing is never silent.
\<close>

theorem strip_removes_only_forbidden:
  "stripFieldsFromQuery q F = unchanged q \<or>
   (\<exists>kvs fs. q = JObj kvs \<and> map_of kvs ''fields'' = Some (JArr fs) \<and>
      \<not> set fs \<subseteq> {JStr ''*''} \<and>
      nextQuery (stripFieldsFromQuery q F) =
        JObj (AList.update ''fields''
               (JArr (filter (\<lambda>f. f \<noteq> JStr ''*'' \<and> f \<notin> JStr ` set F) fs)) kvs) \<and>
      set (removedFields (stripFieldsFromQuery q F)) \<subseteq> {x \<in> set F. JStr x \<in> set fs} \<and>
      removedWildcard (stripFieldsFromQuery q F) = (JStr ''*'' \<in> set fs) \<and>
      (removedWildcard (stripFieldsFromQuery q F) \<or> removedFields (stripFieldsFromQuery q F) \<noteq> []))"
proof (cases "stripFieldsFromQuery q F = unchanged q")
  case True
  then show ?thesis by simp
next
  case False
  with strip_unchanged_or_narrowed[of q F] obtain kvs fs where
    q: "q = JObj kvs" and fs: "map_of kvs ''fields'' = Some (JArr fs)" and
    r: "stripFieldsFromQuery q F =
        \<lparr>nextQuery = JObj (AList.update ''fields''
                        (JArr (filter (\<lambda>f. f \<noteq> JStr ''*'' \<and> f \<notin> JStr ` set F) fs)) kvs),
         removedFields = snd (strip_loop F (filter (\<lambda>f. f \<noteq> JStr ''*'') fs) []),
         removedWildcard = (JStr ''*'' \<in> set fs)\<rparr>" and
    why: "JStr ''*'' \<in> set fs \<or> snd (strip_loop F (filter (\<lambda>f. f \<noteq> JStr ''*'') fs) []) \<noteq> []"
    by blast
  have sub: "set (snd (strip_loop F (filter (\<lambda>f. f \<noteq> JStr ''*'') fs) [])) \<subseteq>
      {x \<in> set F. JStr x \<in> set fs}"
    using strip_loop_snd_subset[of F "filter (\<lambda>f. f \<noteq> JStr ''*'') fs" "[]"] by auto
  have nonwild: "\<not> set fs \<subseteq> {JStr ''*''}"
  proof
    assume all: "set fs \<subseteq> {JStr ''*''}"
    then have empty: "filter (\<lambda>f. f \<noteq> JStr ''*'') fs = []"
      by (auto simp: filter_empty_conv)
    from q fs False have "\<not> (JStr ''*'' \<in> set fs \<and> filter (\<lambda>f. f \<noteq> JStr ''*'') fs = [])"
      by (auto simp: stripFieldsFromQuery_def Let_def split: if_splits)
    with empty have "JStr ''*'' \<notin> set fs" by simp
    moreover have "strip_loop F [] [] = ([], [])"
      by (rule strip_loop_clean) simp
    ultimately show False using why empty by simp
  qed
  from q fs r why sub nonwild show ?thesis by auto
qed

text \<open>
  C3 at the scenario: stripping \<^verbatim>\<open>secret_note\<close> from the fields
  \<^verbatim>\<open>title, secret_note\<close> leaves \<^verbatim>\<open>title\<close> and reports \<^verbatim>\<open>secret_note\<close>.
\<close>

theorem strip_removes_only_forbidden_witness:
  "stripFieldsFromQuery posts_query [''secret_note''] \<noteq> unchanged posts_query \<and>
   nextQuery (stripFieldsFromQuery posts_query [''secret_note'']) = narrowed_posts_query \<and>
   set (removedFields (stripFieldsFromQuery posts_query [''secret_note''])) \<subseteq> {''secret_note''}"
  using strip_removes_only_forbidden [of posts_query "[''secret_note'']"]
  by (simp add: strip_posts_query unchanged_def)

text \<open>
  C3 as stated fails: when the only field of the query is forbidden, the removal leaves
  zero fields and the mutator returns the query with an empty field list and the removed
  name, not the original query with empty removal lists.
\<close>

theorem strip_zero_fields_counterexample:
  "stripFieldsFromQuery (JObj [(''fields'', JArr [JStr ''secret_note'']), (''limit'', JNum 1)])
     [''secret_note''] =
   \<lparr>nextQuery = JObj [(''fields'', JArr []), (''limit'', JNum 1)],
    removedFields = [''secret_note''], removedWildcard = False\<rparr>"
  by (simp add: stripFieldsFromQuery_def Let_def unchanged_def)

subsection \<open>C4: the roles of a synthesized accountability\<close>

text \<open>
  C4 at a public simulation requested by an administrator whose own accountability
  lists the role \<^verbatim>\<open>admin-role\<close>: the synthesized accountability has no role, and its
  roles list is still the administrator's.
\<close>

theorem public_context_keeps_requester_roles:
  "acc_role (buildSimulatedAccountability admin_accountability (simulated_overrides None None)) = None \<and>
   acc_roles (buildSimulatedAccountability admin_accountability (simulated_overrides None None)) =
     Some [''admin-role'']"
  by (simp add: buildSimulatedAccountability_def admin_accountability_def
      simulated_overrides_def str_truthy_def)

subsection \<open>C5: an invalid mode\<close>

text \<open>
  C5, as the handler behaves: a request of an administrator whose body has a mode that
  is present, not \<^verbatim>\<open>null\<close>, and none of \<^verbatim>\<open>requester\<close>, \<^verbatim>\<open>user\<close>, \<^verbatim>\<open>role\<close>,
  \<^verbatim>\<open>public\<close> is answered with the bad-request error, whose status is 400, before
  any call to a collaborator and with the outside world untouched. A request without
  accountability, or whose accountability is not an administrator's, is answered with
  the forbidden error, whose status is 403, in the same way, whatever its mode. A
  request whose mode is missing or \<^verbatim>\<open>null\<close> runs exactly as the same request with
  the mode \<^verbatim>\<open>requester\<close>.
\<close>

theorem invalid_mode_rejected:
  "(req_accountability req = Some acc \<and> acc_admin acc \<and>
    b_mode (req_body req) = Some m \<and> m \<noteq> JNull \<and>
    m \<notin> {JStr ''requester'', JStr ''user'', JStr ''role'', JStr ''public''} \<longrightarrow>
      simulate ctx req s = (Next BadRequestError, [], s) \<and>
      error_status BadRequestError = Some 400) \<and>
   (req_accountability req = None \<or> (req_accountability req = Some acc \<and> \<not> acc_admin acc) \<longrightarrow>
      simulate ctx req s = (Next ForbiddenError, [], s) \<and>
      error_status ForbiddenError = Some 403) \<and>
   (b_mode (req_body req) = None \<or> b_mode (req_body req) = Some JNull \<longrightarrow>
      simulate ctx req s =
        simulate ctx (req\<lparr>req_body := (req_body req)\<lparr>b_mode := Some (JStr ''requester'')\<rparr>\<rparr>) s)"
proof (intro conjI impI)
  assume a: "req_accountability req = Some acc \<and> acc_admin acc \<and>
    b_mode (req_body req) = Some m \<and> m \<noteq> JNull \<and>
    m \<notin> {JStr ''requester'', JStr ''user'', JStr ''role'', JStr ''public''}"
  have "nullish_or (Some m) (JStr ''requester'') = m"
    using a by (cases m) (simp_all add: nullish_or_def)
  moreover have "mode_of m = None"
    using a by (simp add: mode_of_def)
  ultimately have "validate (json_parse ctx) req = Inl BadRequestError"
    using a
    by (simp add: validate_def Let_def split: option.splits json.splits)
  then show "simulate ctx req s = (Next BadRequestError, [], s)" by (simp add: simulate_def)
next
  show "error_status BadRequestError = Some 400" by simp
next
  assume "req_accountability req = None \<or> (req_accountability req = Some acc \<and> \<not> acc_admin acc)"
  then have "req_accountability req = None \<or> (\<exists>a. req_accountability req = Some a \<and> \<not> acc_admin a)"
    by blast
  then show "simulate ctx req s = (Next ForbiddenError, [], s)" by (rule forbidden_caller)
next
  show "error_status ForbiddenError = Some 403" by simp
next
  assume "b_mode (req_body req) = None \<or> b_mode (req_body req) = Some JNull"
  then show "simulate ctx req s =
      simulate ctx (req\<lparr>req_body := (req_body req)\<lparr>b_mode := Some (JStr ''requester'')\<rparr>\<rparr>) s"
    by (rule default_mode [symmetric])
qed

text \<open>
  C5 at the scenario: the mode \<^verbatim>\<open>admin\<close> from the administrator, the same request
  from a caller who is no administrator, and the request without a mode.
\<close>

theorem invalid_mode_rejected_witness:
  "simulate posts_context (posts_request (Some (JStr ''admin'')) None None) 0 =
     (Next BadRequestError, [], 0) \<and>
   simulate posts_context
     ((posts_request (Some (JStr ''admin'')) None None)
        \<lparr>req_accountability := Some public_accountability\<rparr>) 0 =
     (Next ForbiddenError, [], 0) \<and>
   simulate posts_context (posts_request None None None) 0 =
     simulate posts_context (posts_request (Some (JStr ''requester'')) None None) 0"
proof -
  have h1: "req_accountability (posts_request (Some (JStr ''admin'')) None None) =
        Some admin_accountability \<and> acc_admin admin_accountability \<and>
      b_mode (req_body (posts_request (Some (JStr ''admin'')) None None)) = Some (JStr ''admin'') \<and>
      JStr ''admin'' \<noteq> JNull \<and>
      JStr ''admin'' \<notin> {JStr ''requester'', JStr ''user'', JStr ''role'', JStr ''public''}"
    by (simp add: posts_request_def admin_accountability_def)
  have h2: "req_accountability ((posts_request (Some (JStr ''admin'')) None None)
        \<lparr>req_accountability := Some public_accountability\<rparr>) = None \<or>
      (req_accountability ((posts_request (Some (JStr ''admin'')) None None)
        \<lparr>req_accountability := Some public_accountability\<rparr>) = Some public_accountability \<and>
       \<not> acc_admin public_accountability)"
    by (simp add: public_accountability_def)
  have h3: "b_mode (req_body (posts_request None None None)) = None \<or>
      b_mode (req_body (posts_request None None None)) = Some JNull"
    by (simp add: posts_request_def)
  have same: "(posts_request None None None)
      \<lparr>req_body := (req_body (posts_request None None None))
         \<lparr>b_mode := Some (JStr ''requester'')\<rparr>\<rparr> =
      posts_request (Some (JStr ''requester'')) None None"
    by (simp add: posts_request_def)
  from invalid_mode_rejected [of "posts_request (Some (JStr ''admin'')) None None"
      admin_accountability "JStr ''admin''" posts_context 0] h1
  have c1: "simulate posts_context (posts_request (Some (JStr ''admin'')) None None) 0 =
     (Next BadRequestError, [], 0)"
    by blast
  from invalid_mode_rejected [of "(posts_request (Some (JStr ''admin'')) None None)
        \<lparr>req_accountability := Some public_accountability\<rparr>"
      public_accountability "JStr ''admin''" posts_context 0] h2
  have c2: "simulate posts_context
     ((posts_request (Some (JStr ''admin'')) None None)
        \<lparr>req_accountability := Some public_accountability\<rparr>) 0 =
     (Next ForbiddenError, [], 0)"
    by blast
  from invalid_mode_rejected [of "posts_request None None None"
      admin_accountability JNull posts_context 0] h3
  have c3: "simulate posts_context (posts_request None None None) 0 =
     simulate posts_context (posts_request (Some (JStr ''requester'')) None None) 0"
    unfolding same by blast
  from c1 c2 c3 show ?thesis by blast
qed

text \<open>
  C5 as stated fails for a missing mode: the request is run as mode \<^verbatim>\<open>requester\<close>,
  with two calls of the delegate and a success response.
\<close>

theorem missing_mode_counterexample:
  "simulate posts_context (posts_request None None None) 0 =
     (Json \<lparr>res_mode = Requester, res_collection = ''posts'', res_query = posts_query,
            res_warnings = [], res_simulated = [full_row], res_requester = Some [full_row],
            res_hints = []\<rparr>,
      [GetSchema,
       Read SimulatedService admin_accountability ''posts'' posts_query (Inr [full_row]),
       Read RequesterService admin_accountability ''posts'' posts_query (Inr [full_row])],
      2)"
proof -
  have v: "validate (json_parse posts_context) (posts_request None None None) =
      Inr (validated_posts Requester)"
    by (rule validate_posts) (simp add: nullish_or_def mode_of_def)
  have h: "buildHints (getFirstItem [full_row]) (getFirstItem [full_row]) = []"
    by (simp add: getFirstItem_def full_row_def js_in_def)
  have sr: "simulated_read posts_context admin_accountability
      (v_collection (validated_posts Requester)) (v_query (validated_posts Requester)) 0 =
      (Inr ([full_row], []),
       [Read SimulatedService admin_accountability ''posts'' posts_query (Inr [full_row])], Suc 0)"
    by (simp add: simulated_read_def posts_context_def admin_accountability_def validated_posts_def)
  have gs: "getSchema posts_context 0 = (None, 0)"
    by (simp add: posts_context_def)
  have b: "build_accountability posts_context (validated_posts Requester) b 0 =
      (Inr (admin_accountability, []), [], 0)" for b
    by (simp add: build_accountability_def validated_posts_def)
  show ?thesis
    by (simp add: simulate_def v b gs sr admin_read h)
       (simp add: validated_posts_def)
qed

subsection \<open>C6: the forbidden-field extractor\<close>



subsection \<open>C7: at most one retry\<close>

text \<open>
  C7: in every run of the handler the simulated service is read at most twice, and when
  it was read twice and both reads failed, the handler passes on the error of the
  second read, which is the last call it made: there is no third simulated attempt and
  no read for the requester.
\<close>

theorem at_most_one_retry:
  assumes "simulate ctx req s = (out, evs, s')"
  shows "length (filter is_simulated_read evs) \<le> 2 \<and>
         (filter is_simulated_read evs =
            [Read SimulatedService acc1 c1 q1 (Inl e1), Read SimulatedService acc2 c2 q2 (Inl e2)]
          \<longrightarrow> out = Next (Thrown e2) \<and> last evs = Read SimulatedService acc2 c2 q2 (Inl e2))"
  using assms
proof (cases rule: simulate_cases)
  case (rejected e)
  then show ?thesis by simp
next
  case (no_context v e)
  then show ?thesis by (simp add: build_accountability_events)
next
  case (no_schema v acc w evs1 s1 e)
  then show ?thesis by (simp add: build_accountability_events)
next
  case (simulated_failed v acc w evs1 s1 s2 e evs3)
  have e1: "filter is_simulated_read evs1 = []"
    using simulated_failed(2) by (rule build_accountability_events)
  from simulated_failed(3) show ?thesis
    by (cases rule: simulated_read_cases) (auto simp add: simulated_failed(4,5) e1)
next
  case (requester_failed v acc w evs1 s1 s2 items w3 evs3 s3 e evs4)
  have e1: "filter is_simulated_read evs1 = []"
    using requester_failed(2) by (rule build_accountability_events)
  have e4: "filter is_simulated_read evs4 = []"
    using requester_failed(4) by (rule requester_read_events)
  from requester_failed(3) show ?thesis
    by (cases rule: simulated_read_cases) (simp_all add: requester_failed(5,6) e1 e4)
next
  case (responded v acc w evs1 s1 s2 items w3 evs3 s3 ritems evs4)
  have e1: "filter is_simulated_read evs1 = []"
    using responded(2) by (rule build_accountability_events)
  have e4: "filter is_simulated_read evs4 = []"
    using responded(4) by (rule requester_read_events)
  from responded(3) show ?thesis
    by (cases rule: simulated_read_cases) (simp_all add: responded(5,6) e1 e4)
qed

text \<open>
  C7 at a delegate that refuses the public identity twice: the second refusal is
  passed on after two reads.
\<close>

theorem at_most_one_retry_witness:
  "length (filter is_simulated_read
     (fst (snd (simulate denying_context (posts_request (Some (JStr ''public'')) None None) 0)))) \<le> 2 \<and>
   fst (simulate denying_context (posts_request (Some (JStr ''public'')) None None) 0) =
     Next (Thrown secret_denied) \<and>
   last (fst (snd (simulate denying_context (posts_request (Some (JStr ''public'')) None None) 0))) =
     Read SimulatedService public_accountability ''posts'' narrowed_posts_query (Inl secret_denied)"
  using at_most_one_retry [OF denying_run,
      of public_accountability "''posts''" posts_query secret_denied
         public_accountability "''posts''" narrowed_posts_query secret_denied]
  by (simp add: denying_run)

subsection \<open>C8: no escalation of privilege\<close>

text \<open>
  C8: in every run of a request whose mode is \<^verbatim>\<open>user\<close>, \<^verbatim>\<open>role\<close> or
  \<^verbatim>\<open>public\<close>, every accountability with which the simulated service is read has its
  administrator flag off, whatever the requester's own accountability is.
\<close>

theorem synthesized_context_not_admin:
  assumes "simulate ctx req s = (out, evs, s')"
    and "b_mode (req_body req) = Some (JStr m)"
    and "m \<in> {''user'', ''role'', ''public''}"
    and "Read SimulatedService acc c q x \<in> set evs"
  shows "\<not> acc_admin acc"
proof -
  from assms(1,4) obtain v w evs1 s1 where
    v: "validate (json_parse ctx) req = Inr v" and
    b: "build_accountability ctx v (req_body req) s = (Inr (acc, w), evs1, s1)"
    by (rule simulate_read_accountability)
  from validate_Inr[OF v] assms(2,3) have "v_mode v \<noteq> Requester"
    by (auto simp: nullish_or_def mode_of_def)
  with b show ?thesis by (rule build_accountability_not_admin)
qed

text \<open>C8 at the scenario: the requester is an administrator, the public identity is not.\<close>

theorem synthesized_context_not_admin_witness:
  "acc_admin admin_accountability \<and> \<not> acc_admin public_accountability"
  using synthesized_context_not_admin [OF public_run,
      of "''public''" public_accountability "''posts''" posts_query "Inl secret_denied"]
  by (simp add: posts_request_def admin_accountability_def narrowed_events_def)

subsection \<open>C9: the mutator is idempotent\<close>

text \<open>
  C9: for every query and forbidden set, stripping the query that the mutator returned
  with the same forbidden set returns that query unchanged, with no removed fields and
  no removed wildcard.
\<close>

theorem strip_idempotent:
  "stripFieldsFromQuery (nextQuery (stripFieldsFromQuery q F)) F =
     \<lparr>nextQuery = nextQuery (stripFieldsFromQuery q F), removedFields = [], removedWildcard = False\<rparr>"
  using strip_idem[of q F] by (simp add: unchanged_def)

text \<open>C9 at the scenario: the narrowed query is stripped no further.\<close>

theorem strip_idempotent_witness:
  "stripFieldsFromQuery narrowed_posts_query [''secret_note''] =
     \<lparr>nextQuery = narrowed_posts_query, removedFields = [], removedWildcard = False\<rparr>"
  using strip_idempotent [of posts_query "[''secret_note'']"]
  by (simp add: strip_posts_query)

subsection \<open>C10: a role id supplied with a user\<close>

text \<open>
  C10, as the handler behaves: in every run of a request with mode \<^verbatim>\<open>user\<close> whose
  body gives the role id as a non-empty string, the user directory is never looked up,
  the run is the same whatever the directory would answer (so an unknown user id is not
  rejected for being unknown), no warning about the account status is in the response,
  and every read of the simulated service uses the given role id as role and as the
  only entry of the roles list. A role id that is absent, the empty string or not a
  string counts as not supplied: when the request passes validation and gives the user
  id as a non-empty string, the first call of the run is the lookup of that user id,
  and when the directory does not know the user the run ends there with the
  bad-request error, whose status is 400.
\<close>

theorem supplied_role_skips_directory:
  assumes "simulate ctx req s = (out, evs, s')"
    and "b_mode (req_body req) = Some (JStr ''user'')"
  shows "(b_roleId (req_body req) = Some (JStr roleId) \<and> roleId \<noteq> [] \<longrightarrow>
            filter is_user_lookup evs = [] \<and>
            simulate (ctx\<lparr>database_first := d\<rparr>) req s = (out, evs, s') \<and>
            (\<forall>res. out = Json res \<longrightarrow> status_warning st \<notin> set (res_warnings res)) \<and>
            (\<forall>acc c q x. Read SimulatedService acc c q x \<in> set evs \<longrightarrow>
               acc_role acc = Some roleId \<and> acc_roles acc = Some [roleId])) \<and>
         ((\<forall>r. b_roleId (req_body req) = Some (JStr r) \<longrightarrow> r = []) \<and>
          validate (json_parse ctx) req = Inr v \<and>
          b_userId (req_body req) = Some (JStr userId) \<and> userId \<noteq> [] \<longrightarrow>
            (\<exists>evs'. evs = UserLookup userId (fst (database_first ctx s userId)) # evs') \<and>
            (fst (database_first ctx s userId) = Inr None \<longrightarrow>
               out = Next BadRequestError \<and> evs = [UserLookup userId (Inr None)] \<and>
               s' = snd (database_first ctx s userId) \<and>
               error_status BadRequestError = Some 400))"
proof (rule conjI)
  show "b_roleId (req_body req) = Some (JStr roleId) \<and> roleId \<noteq> [] \<longrightarrow>
            filter is_user_lookup evs = [] \<and>
            simulate (ctx\<lparr>database_first := d\<rparr>) req s = (out, evs, s') \<and>
            (\<forall>res. out = Json res \<longrightarrow> status_warning st \<notin> set (res_warnings res)) \<and>
            (\<forall>acc c q x. Read SimulatedService acc c q x \<in> set evs \<longrightarrow>
               acc_role acc = Some roleId \<and> acc_roles acc = Some [roleId])"
  proof
    assume "b_roleId (req_body req) = Some (JStr roleId) \<and> roleId \<noteq> []"
    then have r: "b_roleId (req_body req) = Some (JStr roleId)" "roleId \<noteq> []" by simp_all
    show "filter is_user_lookup evs = [] \<and>
            simulate (ctx\<lparr>database_first := d\<rparr>) req s = (out, evs, s') \<and>
            (\<forall>res. out = Json res \<longrightarrow> status_warning st \<notin> set (res_warnings res)) \<and>
            (\<forall>acc c q x. Read SimulatedService acc c q x \<in> set evs \<longrightarrow>
               acc_role acc = Some roleId \<and> acc_roles acc = Some [roleId])"
      by (rule role_supplied [OF assms(1,2) r])
  qed
next
  show "(\<forall>r. b_roleId (req_body req) = Some (JStr r) \<longrightarrow> r = []) \<and>
          validate (json_parse ctx) req = Inr v \<and>
          b_userId (req_body req) = Some (JStr userId) \<and> userId \<noteq> [] \<longrightarrow>
            (\<exists>evs'. evs = UserLookup userId (fst (database_first ctx s userId)) # evs') \<and>
            (fst (database_first ctx s userId) = Inr None \<longrightarrow>
               out = Next BadRequestError \<and> evs = [UserLookup userId (Inr None)] \<and>
               s' = snd (database_first ctx s userId) \<and>
               error_status BadRequestError = Some 400)"
  proof
    assume a: "(\<forall>r. b_roleId (req_body req) = Some (JStr r) \<longrightarrow> r = []) \<and>
        validate (json_parse ctx) req = Inr v \<and>
        b_userId (req_body req) = Some (JStr userId) \<and> userId \<noteq> []"
    then have n: "validate (json_parse ctx) req = Inr v"
        "b_userId (req_body req) = Some (JStr userId)" "userId \<noteq> []"
        "\<forall>r. b_roleId (req_body req) = Some (JStr r) \<longrightarrow> r = []"
      by simp_all
    note looked = role_not_supplied [OF n(1) assms(2) n(2,3,4), of s]
    from looked assms(1)
    show "(\<exists>evs'. evs = UserLookup userId (fst (database_first ctx s userId)) # evs') \<and>
            (fst (database_first ctx s userId) = Inr None \<longrightarrow>
               out = Next BadRequestError \<and> evs = [UserLookup userId (Inr None)] \<and>
               s' = snd (database_first ctx s userId) \<and>
               error_status BadRequestError = Some 400)"
      by simp
  qed
qed

text \<open>
  C10 at the scenario: the unknown user \<^verbatim>\<open>ghost\<close> with the role \<^verbatim>\<open>editor\<close> is
  simulated although the directory is empty, and as well with a directory that fails;
  with the number 5 as role id the directory is looked up and the user is rejected.
\<close>

theorem supplied_role_skips_directory_witness:
  "simulate (posts_context\<lparr>database_first := (\<lambda>s userId. (Inl secret_denied, s))\<rparr>)
     (posts_request (Some (JStr ''user'')) (Some (JStr ''ghost'')) (Some (JStr ''editor''))) 0 =
     (Json (narrowed_response User), narrowed_events editor_accountability, 3) \<and>
   filter is_user_lookup (narrowed_events editor_accountability) = [] \<and>
   acc_role editor_accountability = Some ''editor'' \<and>
   acc_roles editor_accountability = Some [''editor''] \<and>
   (\<exists>evs'. [UserLookup ''ghost'' (Inr None)] =
      UserLookup ''ghost'' (fst (database_first posts_context 0 ''ghost'')) # evs') \<and>
   error_status BadRequestError = Some 400"
proof -
  have h: "b_mode (req_body (posts_request (Some (JStr ''user'')) (Some (JStr ''ghost''))
                     (Some (JStr ''editor'')))) = Some (JStr ''user'')"
    "b_roleId (req_body (posts_request (Some (JStr ''user'')) (Some (JStr ''ghost''))
                     (Some (JStr ''editor'')))) = Some (JStr ''editor'') \<and> ''editor'' \<noteq> []"
    by (simp_all add: posts_request_def)
  have r: "Read SimulatedService editor_accountability ''posts'' posts_query (Inl secret_denied)
      \<in> set (narrowed_events editor_accountability)"
    by (simp add: narrowed_events_def)
  from supplied_role_skips_directory [OF editor_run h(1),
      of "''editor''" "\<lambda>s userId. (Inl secret_denied, s)" "''active''"] h(2) r
  have first: "simulate (posts_context\<lparr>database_first := (\<lambda>s userId. (Inl secret_denied, s))\<rparr>)
     (posts_request (Some (JStr ''user'')) (Some (JStr ''ghost'')) (Some (JStr ''editor''))) 0 =
     (Json (narrowed_response User), narrowed_events editor_accountability, 3) \<and>
   filter is_user_lookup (narrowed_events editor_accountability) = [] \<and>
   acc_role editor_accountability = Some ''editor'' \<and>
   acc_roles editor_accountability = Some [''editor'']"
    by blast
  have g: "b_mode (req_body (posts_request (Some (JStr ''user'')) (Some (JStr ''ghost''))
                     (Some (JNum 5)))) = Some (JStr ''user'')"
    by (simp add: posts_request_def)
  have v: "validate (json_parse posts_context)
      (posts_request (Some (JStr ''user'')) (Some (JStr ''ghost'')) (Some (JNum 5))) =
      Inr (validated_posts User)"
    by (rule validate_posts) (simp add: nullish_or_def mode_of_def)
  have n: "(\<forall>r. b_roleId (req_body (posts_request (Some (JStr ''user'')) (Some (JStr ''ghost''))
                     (Some (JNum 5)))) = Some (JStr r) \<longrightarrow> r = []) \<and>
      validate (json_parse posts_context)
        (posts_request (Some (JStr ''user'')) (Some (JStr ''ghost'')) (Some (JNum 5))) =
        Inr (validated_posts User) \<and>
      b_userId (req_body (posts_request (Some (JStr ''user'')) (Some (JStr ''ghost''))
                     (Some (JNum 5)))) = Some (JStr ''ghost'') \<and> ''ghost'' \<noteq> []"
    using v by (simp add: posts_request_def)
  have db: "fst (database_first posts_context 0 ''ghost'') = Inr None"
    by (simp add: posts_context_def)
  from supplied_role_skips_directory [OF number_role_run g,
      of _ _ _ "validated_posts User" "''ghost''"] n db
  have second: "(\<exists>evs'. [UserLookup ''ghost'' (Inr None)] =
      UserLookup ''ghost'' (fst (database_first posts_context 0 ''ghost'')) # evs') \<and>
    error_status BadRequestError = Some 400"
    by blast
  from first second show ?thesis by blast
qed

text \<open>
  C10 as stated fails for a role id that is the empty string: the directory is looked
  up, and the unknown user is rejected.
\<close>

theorem empty_role_id_counterexample:
  "simulate posts_context
     (posts_request (Some (JStr ''user'')) (Some (JStr ''ghost'')) (Some (JStr ''''))) 0 =
   (Next BadRequestError, [UserLookup ''ghost'' (Inr None)], 0)"
  by (simp add: simulate_def validate_def posts_request_def admin_accountability_def mode_of_def
      nullish_or_def parseJsonIfNeeded_def posts_query_def build_accountability_def
      resolve_user_def str_truthy_def posts_context_def)

end
